theory Spec2Isabelle
  imports Complex_Main "HOL-Library.Stream" "HOL-Library.AList"
begin

section \<open>Python primitives used by the program\<close>

text \<open>
  Python floats are modelled as real numbers (exact arithmetic, no NaN, no infinities, no
  rounding error); Python's unbounded integers as \<open>int\<close>; strings as \<open>string\<close>.

  The ambient generator of the \<open>random\<close> module is an explicit stream of the values that
  successive calls of \<open>random.random()\<close> return (each in the half-open interval from 0 to 1).
  A function that draws takes the stream and returns what is left of it.
  \<open>random.uniform(a, b)\<close> is \<open>a + (b - a) * random()\<close>, as in CPython.
\<close>

type_synonym rng = "real stream"

definition random_random :: "rng \<Rightarrow> real \<times> rng" where
  "random_random r = (shd r, stl r)"

definition uniform :: "real \<Rightarrow> real \<Rightarrow> rng \<Rightarrow> real \<times> rng" where
  "uniform a b r = (a + (b - a) * shd r, stl r)"

text \<open>\<open>str.lower()\<close> on ASCII text: the 26 capital letters are mapped, every other
  character is kept.\<close>

definition lower_char :: "char \<Rightarrow> char" where
  "lower_char c =
     (case map_of (zip ''ABCDEFGHIJKLMNOPQRSTUVWXYZ'' ''abcdefghijklmnopqrstuvwxyz'') c of
        Some d \<Rightarrow> d
      | None \<Rightarrow> c)"

definition lower :: "string \<Rightarrow> string" where
  "lower s = map lower_char s"

text \<open>\<open>word in text\<close> on strings: \<open>word\<close> occurs in \<open>text\<close> as a contiguous piece.\<close>

fun is_substr :: "string \<Rightarrow> string \<Rightarrow> bool" where
  "is_substr w [] = (w = [])"
| "is_substr w (c # cs) = (take (length w) (c # cs) = w \<or> is_substr w cs)"

text \<open>\<open>round(x, 2)\<close>: the multiple of 1/100 nearest to \<open>x\<close>, an exact tie going to the
  even multiple.\<close>

definition round_half_even :: "real \<Rightarrow> int" where
  "round_half_even y =
     (let f = \<lfloor>y\<rfloor>; d = y - of_int f
      in if d < 1 / 2 then f
         else if 1 / 2 < d then f + 1
         else if even f then f
         else f + 1)"

definition py_round2 :: "real \<Rightarrow> real" where
  "py_round2 x = of_int (round_half_even (x * 100)) / 100"

text \<open>\<open>sum(d.values()) / len(d)\<close> is only evaluated on a non-empty dictionary (the callers
  below raise \<open>ZeroDivisionError\<close> first). \<open>pandas.Series(values).std()\<close> is the sample
  standard deviation (one delta degree of freedom); on fewer than two values it is NaN,
  written \<open>None\<close> here, and so is every arithmetic result that has a NaN operand.\<close>

datatype py_error = ZeroDivisionError

definition mean :: "real list \<Rightarrow> real" where
  "mean xs = sum_list xs / real (length xs)"

definition sample_std :: "real list \<Rightarrow> real" where
  "sample_std xs = sqrt (sum_list (map (\<lambda>x. (x - mean xs) ^ 2) xs) / (real (length xs) - 1))"

definition series_std :: "real list \<Rightarrow> real option" where
  "series_std xs = (if length xs < 2 then None else Some (sample_std xs))"

definition abs_diff :: "real option \<Rightarrow> real option \<Rightarrow> real option" where
  "abs_diff a b =
     (case a of
        None \<Rightarrow> None
      | Some x \<Rightarrow> (case b of None \<Rightarrow> None | Some y \<Rightarrow> Some \<bar>x - y\<bar>))"

section \<open>Memory\<close>

text \<open>Class \<open>Memory\<close>. The record \<open>memory\<close> holds the attributes of \<open>Memory\<close> in
  \<open>Code3.py\<close> (both copies of the class there are the same); \<open>scored_memory\<close> adds the
  three attributes that \<open>Memory\<close> of \<open>Code.py\<close> has on top. A dictionary of scores is an
  association list in insertion order.\<close>

text \<open>(The attribute \<open>identifier\<close> is the field \<open>mem_identifier\<close>: the bare word is reserved in
  theory text.)\<close>

record memory =
  mem_identifier :: string
  content :: string
  current_inference :: string
  initial_valence :: real
  current_valence :: real
  strength :: real
  reprocessing_count :: int
  is_adaptive :: bool

record scored_memory = memory +
  value_alignment_scores :: "(string \<times> real) list"
  agreement_shift :: real
  mischievous_shift :: "real option"

text \<open>\<open>Memory.__init__\<close> of \<open>Code3.py\<close>.\<close>

definition Memory :: "string \<Rightarrow> string \<Rightarrow> string \<Rightarrow> real \<Rightarrow> real \<Rightarrow> memory" where
  "Memory ident cont initial_inference initial_val stren =
     \<lparr> mem_identifier = ident, content = cont, current_inference = initial_inference,
       initial_valence = initial_val, current_valence = initial_val, strength = stren,
       reprocessing_count = 0, is_adaptive = False \<rparr>"

text \<open>\<open>Memory.__init__\<close> of \<open>Code.py\<close>.\<close>

definition Scored_Memory :: "string \<Rightarrow> string \<Rightarrow> string \<Rightarrow> real \<Rightarrow> real \<Rightarrow> scored_memory" where
  "Scored_Memory ident cont initial_inference initial_val stren =
     \<lparr> mem_identifier = ident, content = cont, current_inference = initial_inference,
       initial_valence = initial_val, current_valence = initial_val, strength = stren,
       reprocessing_count = 0, is_adaptive = False,
       value_alignment_scores = [], agreement_shift = 0, mischievous_shift = Some 0 \<rparr>"

section \<open>EndocannabinoidSystem\<close>

text \<open>The class is the same in \<open>Code.py\<close> and in both copies of \<open>Code3.py\<close>.
  \<open>apply_modulation\<close> draws for the strength first, then for the valence.\<close>

record endocannabinoid_system =
  baseline_modulation_strength :: real
  current_modulation :: real

definition EndocannabinoidSystem :: endocannabinoid_system where
  "EndocannabinoidSystem = \<lparr> baseline_modulation_strength = 0.1, current_modulation = 0.1 \<rparr>"

definition get_feedback_signal ::
  "endocannabinoid_system \<Rightarrow> string \<Rightarrow> string \<times> endocannabinoid_system" where
  "get_feedback_signal e outcome =
     (if outcome = ''inference_corrected'' then
        (''plasticity_enhanced'', e\<lparr>current_modulation := baseline_modulation_strength e * 1.5\<rparr>)
      else if outcome = ''dissonance_high'' then
        (''processing_needed'', e\<lparr>current_modulation := baseline_modulation_strength e * 0.5\<rparr>)
      else
        (''neutral'', e\<lparr>current_modulation := baseline_modulation_strength e\<rparr>))"

definition apply_modulation ::
  "endocannabinoid_system \<Rightarrow> 'a memory_scheme \<Rightarrow> rng \<Rightarrow> 'a memory_scheme \<times> rng" where
  "apply_modulation e m r =
     (let (u1, r1) = uniform (- 0.1) 0.1 r;
          m1 = m\<lparr>strength := max 0.1 (strength m + current_modulation e * u1)\<rparr>;
          (u2, r2) = uniform (- 0.05) 0.05 r1;
          m2 = m1\<lparr>current_valence :=
                 max (- 1) (min 1 (current_valence m1 + current_modulation e * u2))\<rparr>
      in (m2, r2))"

section \<open>ConceptualLanguageAI_NN (Code.py)\<close>

text \<open>The keyword table: principle, its "sin" keywords, its "virtue" keywords, in the order
  of the dictionary literal. \<open>value_principles\<close> is the list of its keys, so the loop of
  \<open>predict\<close> over \<open>value_principles\<close> with a lookup of each key is a loop over the entries.\<close>

definition value_spectrum_keywords :: "(string \<times> string list \<times> string list) list" where
  "value_spectrum_keywords =
     [(''Pride'', [''superior'', ''arrogant'', ''boastful''], [''humble'', ''modest'']),
      (''Envy'', [''jealous'', ''resent''], [''admiration'', ''contentment'']),
      (''Gluttony'', [''excessive'', ''overeat''], [''temperance'', ''moderation'']),
      (''Lust'', [''desire'', ''sensual''], [''chastity'', ''restraint'']),
      (''Anger'', [''angry'', ''furious''], [''patience'', ''calm'']),
      (''Greed'', [''selfish'', ''hoard''], [''generosity'', ''altruism'']),
      (''Sloth'', [''lazy'', ''idle''], [''diligence'', ''zeal''])]"

definition value_principles :: "string list" where
  "value_principles = map fst value_spectrum_keywords"

text \<open>\<open>sum(1 for word in kws if word in text)\<close>.\<close>

definition keyword_count :: "string list \<Rightarrow> string \<Rightarrow> nat" where
  "keyword_count kws text = length (filter (\<lambda>word. is_substr word text) kws)"

text \<open>The body of the loop of \<open>predict\<close> for one principle: the band draw, then the jitter
  draw, the clamp and the rounding.\<close>

definition principle_score :: "string list \<Rightarrow> string list \<Rightarrow> string \<Rightarrow> rng \<Rightarrow> real \<times> rng" where
  "principle_score sin_kws virtue_kws text r =
     (let sin_score = keyword_count sin_kws text;
          virtue_score = keyword_count virtue_kws text;
          (score, r1) =
            (if 0 < sin_score \<and> virtue_score = 0 then uniform 0.7 1.0 r
             else if 0 < virtue_score \<and> sin_score = 0 then uniform 0.0 0.3 r
             else if 0 < sin_score \<and> 0 < virtue_score then uniform 0.3 0.7 r
             else uniform 0.35 0.65 r);
          (jitter, r2) = uniform (- 0.05) 0.05 r1
      in (py_round2 (max 0.0 (min 1.0 (score + jitter))), r2))"

fun predict_loop ::
  "(string \<times> string list \<times> string list) list \<Rightarrow> string \<Rightarrow> (string \<times> real) list \<Rightarrow> rng
     \<Rightarrow> (string \<times> real) list \<times> rng" where
  "predict_loop [] text scores r = (scores, r)"
| "predict_loop ((principle, sin_kws, virtue_kws) # rest) text scores r =
     (let (s, r') = principle_score sin_kws virtue_kws text r
      in predict_loop rest text (AList.update principle s scores) r')"

definition predict :: "string \<Rightarrow> rng \<Rightarrow> (string \<times> real) list \<times> rng" where
  "predict text r = predict_loop value_spectrum_keywords (lower text) [] r"

section \<open>Printed output\<close>

text \<open>
  What \<open>print\<close> writes is returned as a list of lines, one constructor for each
  \<open>print\<close> call of the engines, carrying the values the f-string formats:
  \<^item> \<open>MemoryNotFound i\<close>: "Memory 'i' not found." (\<open>Code.py\<close>);
  \<^item> \<open>WarningOverwriting i\<close>: "Warning: Memory 'i' already exists. Overwriting.";
  \<^item> \<open>AddedNewMemory m\<close>: "Added new memory: " and \<open>str(m)\<close>;
  \<^item> \<open>ErrorNotFoundForReactivation i\<close>: "Error: Memory 'i' not found for reactivation.";
  \<^item> \<open>ReactivatingMemory i n\<close>: "--- Reactivating Memory: 'i' (Count: n) ---";
  \<^item> \<open>ErrorNoMemoryForReEvaluation\<close>, \<open>ErrorNoMemoryForRewriting\<close>,
    \<open>ErrorNoMemoryForRetention\<close>: "Error: No memory provided for ...";
  \<^item> \<open>ReEvaluatingMemory i\<close>, \<open>CurrentInference s\<close>, \<open>ValueSystemFlags issues\<close>,
    \<open>IntrospectionSuggests old new\<close>, \<open>InferenceUpdated s\<close>, \<open>DissonanceRemainsHigh\<close>,
    \<open>MinorReEvaluation\<close>, \<open>NoDiscrepancies\<close>, \<open>ECSFeedbackSignal s\<close>: the lines of the
    re-evaluation stage (the two copies word three of them slightly differently);
  \<^item> \<open>RewritingMemory i\<close>, \<open>SuccessfullyRewritten i strength valence\<close>,
    \<open>RewrittenWithDissonance i strength valence\<close>, \<open>MaintainedWithoutChanges i\<close>: the
    rewriting stage;
  \<^item> \<open>RetainingMemory i\<close>, \<open>NowRetained i m\<close>: the retention stage;
  \<^item> \<open>StartingCycle i\<close>, \<open>CycleComplete i\<close>,
    \<open>CycleAborted i\<close>: "RMM Cycle aborted for 'i' due to memory not found.".
\<close>

datatype issue = GreedyClash | AngryClash | AffiliationalClash

datatype line =
    MemoryNotFound string
  | WarningOverwriting string
  | AddedNewMemory memory
  | ErrorNotFoundForReactivation string
  | ReactivatingMemory string int
  | ErrorNoMemoryForReEvaluation
  | ReEvaluatingMemory string
  | CurrentInference string
  | ValueSystemFlags "issue list"
  | IntrospectionSuggests string string
  | InferenceUpdated string
  | DissonanceRemainsHigh
  | MinorReEvaluation
  | NoDiscrepancies
  | ECSFeedbackSignal string
  | ErrorNoMemoryForRewriting
  | RewritingMemory string
  | SuccessfullyRewritten string real real
  | RewrittenWithDissonance string real real
  | MaintainedWithoutChanges string
  | ErrorNoMemoryForRetention
  | RetainingMemory string
  | NowRetained string memory
  | StartingCycle string
  | CycleComplete string
  | CycleAborted string

section \<open>RMMModel: the collection\<close>

text \<open>\<open>self.ecs\<close> and \<open>self.memories\<close>; the first copy of \<open>RMMModel\<close> in \<open>Code3.py\<close>
  has \<open>self.value_system_principles\<close> as well. The scorer of \<open>Code.py\<close>
  (\<open>self.language_ai_nn\<close>) has no state of its own beyond the constant keyword table.
  Memory objects are mutated in place by the stages of a cycle; here a stage takes the
  object's value and returns the new one, and the cycle stores it back under the key it was
  fetched from (\<open>add_memory\<close> always stores a new object, so no two keys share one).\<close>

record 'm rmm_model =
  ecs :: endocannabinoid_system
  memories :: "string \<rightharpoonup> 'm"

record rmm_model3 = "memory rmm_model" +
  value_system_principles :: "string list"

definition RMMModel :: "scored_memory rmm_model" where
  "RMMModel = \<lparr> ecs = EndocannabinoidSystem, memories = Map.empty \<rparr>"

definition RMMModel3 :: rmm_model3 where
  "RMMModel3 = \<lparr> ecs = EndocannabinoidSystem, memories = Map.empty,
                 value_system_principles = [''Greedy'', ''Angry'', ''Affiliational''] \<rparr>"

definition RMMModel4 :: "memory rmm_model" where
  "RMMModel4 = \<lparr> ecs = EndocannabinoidSystem, memories = Map.empty \<rparr>"

section \<open>RMMModel of Code.py: the threshold policy\<close>

text \<open>\<open>add_memory(identifier, content, inference, valence=0.0)\<close>: the memory is built with
  the default strength 1.0, scored at once, and stored under its identifier (whatever was
  stored there before is replaced). The method has no \<open>print\<close>: its list of lines is
  empty.\<close>

definition add_memory ::
  "scored_memory rmm_model \<Rightarrow> string \<Rightarrow> string \<Rightarrow> string \<Rightarrow> real \<Rightarrow> rng
     \<Rightarrow> scored_memory rmm_model \<times> rng \<times> line list" where
  "add_memory M ident cont inference valence r =
     (let memory = Scored_Memory ident cont inference valence 1.0;
          (scores, r') = predict inference r;
          memory = memory\<lparr>value_alignment_scores := scores\<rparr>
      in (M\<lparr>memories := (memories M)(ident \<mapsto> memory)\<rparr>, r', []))"

text \<open>\<open>reevaluate(memory)\<close>: returns the outcome; the state of \<open>self.ecs\<close>, the memory
  and the generator are returned updated.\<close>

definition reevaluate ::
  "endocannabinoid_system \<Rightarrow> scored_memory \<Rightarrow> rng
     \<Rightarrow> string \<times> endocannabinoid_system \<times> scored_memory \<times> rng" where
  "reevaluate e memory r =
     (let scores = value_alignment_scores memory;
          issues = map fst (filter (\<lambda>(k, v). 0.75 < v) scores);
          trigger = (issues \<noteq> []);
          (outcome, memory1, r1) =
            (if trigger then
               (let m1 = memory\<lparr>current_inference := ''Improved perspective: '' @ content memory\<rparr>;
                    (new_scores, r') = predict (current_inference m1) r
                in (''inference_corrected'', m1\<lparr>value_alignment_scores := new_scores\<rparr>, r'))
             else (''no_change'', memory, r));
          (signal, e1) = get_feedback_signal e outcome;
          (memory2, r2) = apply_modulation e1 memory1 r1
      in (outcome, e1, memory2, r2))"

definition rewrite :: "scored_memory \<Rightarrow> string \<Rightarrow> scored_memory" where
  "rewrite memory outcome =
     (if outcome = ''inference_corrected'' then
        (let m1 = memory\<lparr>strength := strength memory * 1.1\<rparr>
         in m1\<lparr>current_valence := min 1.0 (current_valence m1 + 0.1)\<rparr>)
      else if outcome = ''dissonance_high'' then
        (let m1 = memory\<lparr>strength := strength memory * 0.8\<rparr>
         in m1\<lparr>current_valence := max (- 1.0) (current_valence m1 - 0.1)\<rparr>)
      else memory)"

definition retain :: "scored_memory \<Rightarrow> scored_memory" where
  "retain memory = memory\<lparr>is_adaptive := True\<rparr>"

text \<open>\<open>run_rmm_cycle(identifier)\<close>. The result is: the exception raised, if any (the method
  itself returns \<open>None\<close> on every path); the collection; the generator; the lines printed.
  The two divisions by \<open>len(...)\<close> raise \<open>ZeroDivisionError\<close> on an empty dictionary of
  scores, after the mutations made up to that point.\<close>

definition run_rmm_cycle ::
  "scored_memory rmm_model \<Rightarrow> string \<Rightarrow> rng
     \<Rightarrow> py_error option \<times> scored_memory rmm_model \<times> rng \<times> line list" where
  "run_rmm_cycle M ident r =
     (case memories M ident of
        None \<Rightarrow> (None, M, r, [MemoryNotFound ident])
      | Some memory \<Rightarrow>
          (let m1 = memory\<lparr>reprocessing_count := reprocessing_count memory + 1\<rparr>;
               old_scores = value_alignment_scores m1
           in if old_scores = [] then
                (Some ZeroDivisionError, M\<lparr>memories := (memories M)(ident \<mapsto> m1)\<rparr>, r, [])
              else
                (let old_mean = mean (map snd old_scores);
                     old_std = series_std (map snd old_scores);
                     (outcome, e1, m2, r1) = reevaluate (ecs M) m1 r;
                     new_scores = value_alignment_scores m2
                 in if new_scores = [] then
                      (Some ZeroDivisionError,
                       M\<lparr>ecs := e1, memories := (memories M)(ident \<mapsto> m2)\<rparr>, r1, [])
                    else
                      (let new_mean = mean (map snd new_scores);
                           new_std = series_std (map snd new_scores);
                           m3 = m2\<lparr>agreement_shift := old_mean - new_mean\<rparr>;
                           m4 = m3\<lparr>mischievous_shift := abs_diff new_std old_std\<rparr>;
                           m5 = rewrite m4 outcome;
                           m6 = retain m5
                       in (None, M\<lparr>ecs := e1, memories := (memories M)(ident \<mapsto> m6)\<rparr>,
                           r1, [])))))"

text \<open>The collections that calls of \<open>add_memory\<close> and \<open>run_rmm_cycle\<close> build from the
  empty \<open>RMMModel()\<close>, for every generator that returns values of the half-open unit
  interval, as \<open>random.random()\<close> does.\<close>

definition unit_draws :: "rng \<Rightarrow> bool" where
  "unit_draws r = (\<forall>u \<in> sset r. 0 \<le> u \<and> u < 1)"

inductive reachable :: "scored_memory rmm_model \<Rightarrow> bool" where
  reachable_init: "reachable RMMModel"
| reachable_add:
    "reachable M \<Longrightarrow> unit_draws r
       \<Longrightarrow> reachable (fst (add_memory M ident cont inference valence r))"
| reachable_cycle:
    "reachable M \<Longrightarrow> unit_draws r \<Longrightarrow> reachable (fst (snd (run_rmm_cycle M ident r)))"

section \<open>RMMModel of Code3.py: the random policies\<close>

text \<open>\<open>add_memory\<close>, \<open>reactivate_memory\<close>, \<open>rewrite_memory\<close>, \<open>retain_memory\<close> and
  \<open>run_rmm_cycle\<close> read the same in both copies of the class; the copies differ in
  \<open>reevaluate_memory\<close> (and in \<open>value_system_principles\<close>, which only the first has).
  The methods that read the same are defined once, for both collections. A name that
  \<open>Code.py\<close> has too ends in 3 here; the methods of the second copy that differ from the
  first end in 4.\<close>

definition add_memory3 ::
  "(memory, 'a) rmm_model_scheme \<Rightarrow> string \<Rightarrow> string \<Rightarrow> string \<Rightarrow> real
     \<Rightarrow> (memory, 'a) rmm_model_scheme \<times> line list" where
  "add_memory3 M ident cont initial_inference initial_val =
     (let warning = (if memories M ident \<noteq> None then [WarningOverwriting ident] else []);
          memory = Memory ident cont initial_inference initial_val 1.0
      in (M\<lparr>memories := (memories M)(ident \<mapsto> memory)\<rparr>, warning @ [AddedNewMemory memory]))"

definition reactivate_memory ::
  "(memory, 'a) rmm_model_scheme \<Rightarrow> string
     \<Rightarrow> memory option \<times> (memory, 'a) rmm_model_scheme \<times> line list" where
  "reactivate_memory M memory_id =
     (case memories M memory_id of
        None \<Rightarrow> (None, M, [ErrorNotFoundForReactivation memory_id])
      | Some memory \<Rightarrow>
          (let m1 = memory\<lparr>reprocessing_count := reprocessing_count memory + 1\<rparr>
           in (Some m1, M\<lparr>memories := (memories M)(memory_id \<mapsto> m1)\<rparr>,
               [ReactivatingMemory (mem_identifier m1) (reprocessing_count m1)])))"

text \<open>One of the three value checks of the first copy:
  \<open>if P in self.value_system_principles: if kw in inference.lower() and random.random() < 0.2:\<close>
  appends the issue. The draw is made only when the keyword occurs (\<open>and\<close> is evaluated
  left to right). The flag \<open>needs_re_evaluation_trigger\<close> is never read and is left out.\<close>

definition value_check ::
  "string list \<Rightarrow> string \<Rightarrow> string \<Rightarrow> issue \<Rightarrow> string \<Rightarrow> issue list \<times> rng \<Rightarrow> issue list \<times> rng" where
  "value_check principles principle keyword clash inference st =
     (case st of (potential_issues, r) \<Rightarrow>
        if principle \<in> set principles then
          (if is_substr keyword (lower inference) then
             (let (u, r') = random_random r
              in if u < 0.2 then (potential_issues @ [clash], r') else (potential_issues, r'))
           else (potential_issues, r))
        else (potential_issues, r))"

definition reevaluate_memory ::
  "string list \<Rightarrow> endocannabinoid_system \<Rightarrow> memory option \<Rightarrow> rng
     \<Rightarrow> string \<times> endocannabinoid_system \<times> memory option \<times> rng \<times> line list" where
  "reevaluate_memory principles e mo r =
     (case mo of
        None \<Rightarrow> (''no_memory'', e, None, r, [ErrorNoMemoryForReEvaluation])
      | Some memory \<Rightarrow>
          (let inference = current_inference memory;
               st1 = value_check principles ''Greedy'' ''gain'' GreedyClash inference ([], r);
               st2 = value_check principles ''Angry'' ''upset'' AngryClash inference st1;
               (potential_issues, r3) =
                 value_check principles ''Affiliational'' ''alone'' AffiliationalClash inference st2;
               (outcome, memory1, r4, out) =
                 (if potential_issues \<noteq> [] then
                    (let old_inference = current_inference memory;
                         new_inference_candidate =
                           ''updated interpretation based on value system for '' @ content memory;
                         (u, r') = random_random r3
                     in if u < 0.7 then
                          (''inference_corrected'',
                           memory\<lparr>current_inference := new_inference_candidate\<rparr>, r',
                           [ValueSystemFlags potential_issues,
                            InferenceUpdated new_inference_candidate])
                        else
                          (''dissonance_high'', memory, r',
                           [ValueSystemFlags potential_issues, DissonanceRemainsHigh]))
                  else
                    (let (u, r') = random_random r3
                     in if u < 0.1 then (''no_change'', memory, r', [MinorReEvaluation])
                        else (''no_change'', memory, r', [NoDiscrepancies])));
               (ecs_signal, e1) = get_feedback_signal e outcome;
               (memory2, r5) = apply_modulation e1 memory1 r4
           in (outcome, e1, Some memory2, r5,
               [ReEvaluatingMemory (mem_identifier memory), CurrentInference inference]
                 @ out @ [ECSFeedbackSignal ecs_signal])))"

definition reevaluate_memory4 ::
  "endocannabinoid_system \<Rightarrow> memory option \<Rightarrow> rng
     \<Rightarrow> string \<times> endocannabinoid_system \<times> memory option \<times> rng \<times> line list" where
  "reevaluate_memory4 e mo r =
     (case mo of
        None \<Rightarrow> (''no_memory'', e, None, r, [ErrorNoMemoryForReEvaluation])
      | Some memory \<Rightarrow>
          (let (u, r1) = random_random r;
               (outcome, memory1, r3, out) =
                 (if u < 0.3 then
                    (let old_inference = current_inference memory;
                         new_inference_candidate = ''updated interpretation for '' @ content memory;
                         (u2, r2) = random_random r1
                     in if u2 < 0.7 then
                          (''inference_corrected'',
                           memory\<lparr>current_inference := new_inference_candidate\<rparr>, r2,
                           [IntrospectionSuggests old_inference new_inference_candidate,
                            InferenceUpdated new_inference_candidate])
                        else
                          (''dissonance_high'', memory, r2,
                           [IntrospectionSuggests old_inference new_inference_candidate,
                            DissonanceRemainsHigh]))
                  else (''no_change'', memory, r1, [NoDiscrepancies]));
               (ecs_signal, e1) = get_feedback_signal e outcome;
               (memory2, r4) = apply_modulation e1 memory1 r3
           in (outcome, e1, Some memory2, r4,
               [ReEvaluatingMemory (mem_identifier memory),
                CurrentInference (current_inference memory)]
                 @ out @ [ECSFeedbackSignal ecs_signal])))"

definition rewrite_memory :: "memory option \<Rightarrow> string \<Rightarrow> memory option \<times> line list" where
  "rewrite_memory mo re_evaluation_outcome =
     (case mo of
        None \<Rightarrow> (None, [ErrorNoMemoryForRewriting])
      | Some memory \<Rightarrow>
          if re_evaluation_outcome = ''inference_corrected''
             \<or> re_evaluation_outcome = ''plasticity_enhanced'' then
            (let m1 = memory\<lparr>strength := strength memory * 1.1\<rparr>;
                 m2 = m1\<lparr>current_valence := max (- 1.0) (min 1.0 (current_valence m1 + 0.1))\<rparr>
             in (Some m2,
                 [RewritingMemory (mem_identifier memory),
                  SuccessfullyRewritten (mem_identifier m2) (strength m2) (current_valence m2)]))
          else if re_evaluation_outcome = ''dissonance_high'' then
            (let m1 = memory\<lparr>strength := strength memory * 0.8\<rparr>;
                 m2 = m1\<lparr>current_valence := max (- 1.0) (min 1.0 (current_valence m1 - 0.1))\<rparr>
             in (Some m2,
                 [RewritingMemory (mem_identifier memory),
                  RewrittenWithDissonance (mem_identifier m2) (strength m2) (current_valence m2)]))
          else
            (Some memory,
             [RewritingMemory (mem_identifier memory),
              MaintainedWithoutChanges (mem_identifier memory)]))"

definition retain_memory :: "memory option \<Rightarrow> memory option \<times> line list" where
  "retain_memory mo =
     (case mo of
        None \<Rightarrow> (None, [ErrorNoMemoryForRetention])
      | Some memory \<Rightarrow>
          (let m1 = memory\<lparr>is_adaptive := True\<rparr>
           in (Some m1, [RetainingMemory (mem_identifier memory), NowRetained (mem_identifier m1) m1])))"

text \<open>\<open>run_rmm_cycle(memory_id)\<close> of the first copy. No statement of it can raise. The
  result is the collection, the generator and the lines printed.\<close>

definition run_rmm_cycle3 :: "rmm_model3 \<Rightarrow> string \<Rightarrow> rng \<Rightarrow> rmm_model3 \<times> rng \<times> line list" where
  "run_rmm_cycle3 M memory_id r =
     (let (mo, M1, out1) = reactivate_memory M memory_id
      in case mo of
           Some memory \<Rightarrow>
             (let (re_evaluation_outcome, e1, mo2, r1, out2) =
                    reevaluate_memory (value_system_principles M1) (ecs M1) (Some memory) r;
                  (mo3, out3) = rewrite_memory mo2 re_evaluation_outcome;
                  (mo4, out4) = retain_memory mo3;
                  M2 = M1\<lparr>ecs := e1,
                          memories := (case mo4 of
                                         Some m \<Rightarrow> (memories M1)(memory_id \<mapsto> m)
                                       | None \<Rightarrow> memories M1)\<rparr>
              in (M2, r1,
                  [StartingCycle memory_id] @ out1 @ out2 @ out3 @ out4
                    @ [CycleComplete memory_id]))
         | None \<Rightarrow> (M1, r, [StartingCycle memory_id] @ out1 @ [CycleAborted memory_id]))"

text \<open>\<open>run_rmm_cycle(memory_id)\<close> of the second copy.\<close>

definition run_rmm_cycle4 ::
  "memory rmm_model \<Rightarrow> string \<Rightarrow> rng \<Rightarrow> memory rmm_model \<times> rng \<times> line list" where
  "run_rmm_cycle4 M memory_id r =
     (let (mo, M1, out1) = reactivate_memory M memory_id
      in case mo of
           Some memory \<Rightarrow>
             (let (re_evaluation_outcome, e1, mo2, r1, out2) =
                    reevaluate_memory4 (ecs M1) (Some memory) r;
                  (mo3, out3) = rewrite_memory mo2 re_evaluation_outcome;
                  (mo4, out4) = retain_memory mo3;
                  M2 = M1\<lparr>ecs := e1,
                          memories := (case mo4 of
                                         Some m \<Rightarrow> (memories M1)(memory_id \<mapsto> m)
                                       | None \<Rightarrow> memories M1)\<rparr>
              in (M2, r1,
                  [StartingCycle memory_id] @ out1 @ out2 @ out3 @ out4
                    @ [CycleComplete memory_id]))
         | None \<Rightarrow> (M1, r, [StartingCycle memory_id] @ out1 @ [CycleAborted memory_id]))"

text \<open>The two methods differ only in the re-evaluation stage they call. \<open>run_cycle_with\<close>
  is their common shape with that stage as a parameter; it is used to prove facts of both
  at once (\<open>run_rmm_cycle3_with\<close> and \<open>run_rmm_cycle4_with\<close> below).\<close>

definition run_cycle_with ::
  "(endocannabinoid_system \<Rightarrow> memory option \<Rightarrow> rng
      \<Rightarrow> string \<times> endocannabinoid_system \<times> memory option \<times> rng \<times> line list)
     \<Rightarrow> (memory, 'a) rmm_model_scheme \<Rightarrow> string \<Rightarrow> rng
     \<Rightarrow> (memory, 'a) rmm_model_scheme \<times> rng \<times> line list" where
  "run_cycle_with reeval M memory_id r =
     (let (mo, M1, out1) = reactivate_memory M memory_id
      in case mo of
           Some memory \<Rightarrow>
             (let (re_evaluation_outcome, e1, mo2, r1, out2) = reeval (ecs M1) (Some memory) r;
                  (mo3, out3) = rewrite_memory mo2 re_evaluation_outcome;
                  (mo4, out4) = retain_memory mo3;
                  M2 = M1\<lparr>ecs := e1,
                          memories := (case mo4 of
                                         Some m \<Rightarrow> (memories M1)(memory_id \<mapsto> m)
                                       | None \<Rightarrow> memories M1)\<rparr>
              in (M2, r1,
                  [StartingCycle memory_id] @ out1 @ out2 @ out3 @ out4
                    @ [CycleComplete memory_id]))
         | None \<Rightarrow> (M1, r, [StartingCycle memory_id] @ out1 @ [CycleAborted memory_id]))"

text \<open>A run of cycles one after the other, as the example blocks at the end of the files
  make them.\<close>

fun run_rmm_cycles3 :: "rmm_model3 \<Rightarrow> string list \<Rightarrow> rng \<Rightarrow> rmm_model3 \<times> rng" where
  "run_rmm_cycles3 M [] r = (M, r)"
| "run_rmm_cycles3 M (memory_id # ids) r =
     (case run_rmm_cycle3 M memory_id r of (M', r', out) \<Rightarrow> run_rmm_cycles3 M' ids r')"

section \<open>Supporting lemmas\<close>

subsection \<open>Scores of the scorer\<close>

lemma round_half_even_cases:
  "round_half_even y = \<lfloor>y\<rfloor> \<or> (round_half_even y = \<lfloor>y\<rfloor> + 1 \<and> 1 / 2 \<le> y - of_int \<lfloor>y\<rfloor>)"
  unfolding round_half_even_def Let_def by auto

lemma round_half_even_ge: "of_int k \<le> y \<Longrightarrow> k \<le> round_half_even y"
proof -
  assume "of_int k \<le> y"
  then have "k \<le> \<lfloor>y\<rfloor>" by (simp add: le_floor_iff)
  then show ?thesis using round_half_even_cases[of y] by linarith
qed

lemma round_half_even_le: "y \<le> of_int k \<Longrightarrow> round_half_even y \<le> k"
proof -
  assume a: "y \<le> of_int k"
  then have f: "\<lfloor>y\<rfloor> \<le> k" by (simp add: floor_le_iff)
  show ?thesis
  proof (cases "\<lfloor>y\<rfloor> = k")
    case True
    then have "y - of_int \<lfloor>y\<rfloor> \<le> 0" using a by simp
    then show ?thesis using round_half_even_cases[of y] True by linarith
  next
    case False
    then have "\<lfloor>y\<rfloor> + 1 \<le> k" using f by linarith
    then show ?thesis using round_half_even_cases[of y] by linarith
  qed
qed

lemma py_round2_ge: "of_int k / 100 \<le> x \<Longrightarrow> of_int k / 100 \<le> py_round2 x"
  unfolding py_round2_def
  using round_half_even_ge[of k "x * 100"] by (simp add: divide_le_eq)

lemma py_round2_le: "x \<le> of_int k / 100 \<Longrightarrow> py_round2 x \<le> of_int k / 100"
  unfolding py_round2_def
  using round_half_even_le[of "x * 100" k] by (simp add: le_divide_eq)

lemma py_round2_unit: "0 \<le> x \<Longrightarrow> x \<le> 1 \<Longrightarrow> 0 \<le> py_round2 x \<and> py_round2 x \<le> 1"
  using py_round2_ge[of 0 x] py_round2_le[of x 100] by simp

lemma py_round2_065: "0.65 \<le> x \<Longrightarrow> 0.65 \<le> py_round2 x"
  using py_round2_ge[of 65 x] by simp

lemma py_round2_hundredth: "\<exists>n::int. py_round2 x = of_int n / 100"
  unfolding py_round2_def by blast

lemma uniform_snd [simp]: "snd (uniform a b r) = stl r"
  by (simp add: uniform_def)

lemma uniform_fst_ge: "a \<le> b \<Longrightarrow> 0 \<le> shd r \<Longrightarrow> a \<le> fst (uniform a b r)"
  by (simp add: uniform_def)

lemma principle_score_snd [simp]: "snd (principle_score s v t r) = stl (stl r)"
  by (simp add: principle_score_def Let_def split_beta)

lemma principle_score_unit:
  "0 \<le> fst (principle_score s v t r) \<and> fst (principle_score s v t r) \<le> 1
     \<and> (\<exists>n::int. fst (principle_score s v t r) = of_int n / 100)"
  unfolding principle_score_def Let_def split_beta fst_conv
  using py_round2_unit py_round2_hundredth by simp

lemma principle_score_high:
  assumes "0 < keyword_count s t" "keyword_count v t = 0" "0 \<le> shd r" "0 \<le> shd (stl r)"
  shows "0.65 \<le> fst (principle_score s v t r)"
proof -
  define x where "x = max 0.0 (min 1.0 (fst (uniform 0.7 1.0 r) + fst (uniform (- 0.05) 0.05 (stl r))))"
  have a: "0.7 \<le> fst (uniform 0.7 1.0 r)" using assms(3) by (intro uniform_fst_ge) simp_all
  have b: "- 0.05 \<le> fst (uniform (- 0.05) 0.05 (stl r))"
    using assms(4) by (intro uniform_fst_ge) simp_all
  have x: "0.65 \<le> x"
    unfolding x_def using a b by simp
  have "fst (principle_score s v t r) = py_round2 x"
    unfolding x_def using assms(1,2) by (simp add: principle_score_def Let_def split_beta)
  then show ?thesis
    using py_round2_065[OF x] by simp
qed

lemma update_set: "set (AList.update k v al) \<subseteq> insert (k, v) (set al)"
  by (induction al) auto

lemma predict_loop_all:
  "\<forall>(k, v) \<in> set acc. P v \<Longrightarrow> (\<And>s v t r. P (fst (principle_score s v t r)))
    \<Longrightarrow> \<forall>(k, v) \<in> set (fst (predict_loop tbl text acc r)). P v"
proof (induction tbl arbitrary: acc r)
  case Nil
  then show ?case by simp
next
  case (Cons e tbl)
  obtain p s v where e: "e = (p, s, v)" by (cases e)
  have "\<forall>(k, v) \<in> set (AList.update p (fst (principle_score s v text r)) acc). P v"
    using update_set[of p "fst (principle_score s v text r)" acc] Cons.prems by auto
  then show ?case
    using Cons.IH Cons.prems(2) by (simp add: e split_beta)
qed

lemma predict_loop_other:
  "p \<notin> fst ` set tbl \<Longrightarrow> map_of (fst (predict_loop tbl text acc r)) p = map_of acc p"
  by (induction tbl arbitrary: acc r) (auto simp: split_beta update_conv')

lemma predict_loop_high:
  assumes "distinct (map fst tbl)" "(p, s, v) \<in> set tbl"
    "0 < keyword_count s text" "keyword_count v text = 0" "\<forall>u \<in> sset r. 0 \<le> u"
  shows "\<exists>x. map_of (fst (predict_loop tbl text acc r)) p = Some x \<and> 0.65 \<le> x"
  using assms
proof (induction tbl arbitrary: acc r)
  case Nil
  then show ?case by simp
next
  case (Cons e tbl)
  obtain p' s' v' where e: "e = (p', s', v')" by (cases e)
  have r2: "\<forall>u \<in> sset (stl (stl r)). 0 \<le> u"
    using Cons.prems(5) by (meson stl_sset)
  show ?case
  proof (cases "(p, s, v) = e")
    case True
    then have notin: "p \<notin> fst ` set tbl" using Cons.prems(1) by force
    have "0 \<le> shd r" "0 \<le> shd (stl r)"
      using Cons.prems(5) by (simp_all add: shd_sset stl_sset)
    then have "0.65 \<le> fst (principle_score s v text r)"
      using principle_score_high Cons.prems(3,4) by blast
    then show ?thesis
      using True e predict_loop_other[OF notin] by (simp add: split_beta update_conv')
  next
    case False
    then have "(p, s, v) \<in> set tbl" using Cons.prems(2) by simp
    moreover have "distinct (map fst tbl)" using Cons.prems(1) by simp
    ultimately show ?thesis
      using Cons.IH[OF _ _ Cons.prems(3,4) r2] by (simp add: e split_beta)
  qed
qed

lemma keyword_count_pos: "0 < keyword_count kws text \<longleftrightarrow> (\<exists>w \<in> set kws. is_substr w text)"
  by (simp add: keyword_count_def filter_empty_conv)

lemma keyword_count_zero: "keyword_count kws text = 0 \<longleftrightarrow> (\<forall>w \<in> set kws. \<not> is_substr w text)"
  by (simp add: keyword_count_def filter_empty_conv)

lemma predict_range:
  "\<forall>(k, v) \<in> set (fst (predict txt r)). 0 \<le> v \<and> v \<le> 1 \<and> (\<exists>n::int. v = of_int n / 100)"
  unfolding predict_def
  by (rule predict_loop_all[where P = "\<lambda>v. 0 \<le> v \<and> v \<le> 1 \<and> (\<exists>n::int. v = of_int n / 100)"])
     (simp, rule principle_score_unit)

subsection \<open>Frame facts of the stages and of a cycle\<close>

lemma apply_modulation_frame:
  "memory.more (fst (apply_modulation e m r)) = memory.more m"
  "reprocessing_count (fst (apply_modulation e m r)) = reprocessing_count m"
  "is_adaptive (fst (apply_modulation e m r)) = is_adaptive m"
  "current_inference (fst (apply_modulation e m r)) = current_inference m"
  "content (fst (apply_modulation e m r)) = content m"
  "mem_identifier (fst (apply_modulation e m r)) = mem_identifier m"
  "initial_valence (fst (apply_modulation e m r)) = initial_valence m"
  by (simp_all add: apply_modulation_def Let_def split_beta)

lemma apply_modulation_scores:
  "value_alignment_scores (fst (apply_modulation e m r)) = value_alignment_scores m"
  by (simp add: apply_modulation_def Let_def split_beta)

lemma apply_modulation_bounds:
  "0.1 \<le> strength (fst (apply_modulation e m r))"
  "- 1 \<le> current_valence (fst (apply_modulation e m r))"
  "current_valence (fst (apply_modulation e m r)) \<le> 1"
  by (simp_all add: apply_modulation_def Let_def split_beta)

lemma apply_modulation_rng: "snd (apply_modulation e m r) = stl (stl r)"
  by (simp add: apply_modulation_def Let_def split_beta uniform_def)

lemma reevaluate_outcome:
  "fst (reevaluate e m r) =
     (if \<exists>(k, v) \<in> set (value_alignment_scores m). 0.75 < v then ''inference_corrected''
      else ''no_change'')"
  by (auto simp: reevaluate_def Let_def split_beta filter_empty_conv)

lemma reevaluate_frame:
  "reprocessing_count (fst (snd (snd (reevaluate e m r)))) = reprocessing_count m"
  "is_adaptive (fst (snd (snd (reevaluate e m r)))) = is_adaptive m"
  "content (fst (snd (snd (reevaluate e m r)))) = content m"
  by (simp_all add: reevaluate_def Let_def split_beta apply_modulation_frame)

lemma rewrite_frame:
  "reprocessing_count (rewrite m outcome) = reprocessing_count m"
  "is_adaptive (rewrite m outcome) = is_adaptive m"
  "value_alignment_scores (rewrite m outcome) = value_alignment_scores m"
  by (simp_all add: rewrite_def Let_def)

lemma run_rmm_cycle_absent:
  "memories M i = None \<Longrightarrow> run_rmm_cycle M i r = (None, M, r, [MemoryNotFound i])"
  by (simp add: run_rmm_cycle_def)

lemma run_rmm_cycle_others:
  "j \<noteq> i \<Longrightarrow> memories (fst (snd (run_rmm_cycle M i r))) j = memories M j"
  by (simp add: run_rmm_cycle_def Let_def split_beta split: option.splits)

lemma run_rmm_cycle_count:
  "memories M i = Some m \<Longrightarrow>
     \<exists>m'. memories (fst (snd (run_rmm_cycle M i r))) i = Some m'
        \<and> reprocessing_count m' = reprocessing_count m + 1"
  by (simp add: run_rmm_cycle_def Let_def split_beta retain_def rewrite_frame reevaluate_frame)

lemma reevaluate_memory_Some:
  "\<exists>m'. fst (snd (snd (reevaluate_memory ps e (Some m) r))) = Some m'
      \<and> reprocessing_count m' = reprocessing_count m \<and> is_adaptive m' = is_adaptive m"
  by (simp add: reevaluate_memory_def Let_def split_beta apply_modulation_frame)

lemma reevaluate_memory4_Some:
  "\<exists>m'. fst (snd (snd (reevaluate_memory4 e (Some m) r))) = Some m'
      \<and> reprocessing_count m' = reprocessing_count m \<and> is_adaptive m' = is_adaptive m"
  by (simp add: reevaluate_memory4_def Let_def split_beta apply_modulation_frame)

lemma rewrite_memory_Some:
  "\<exists>m'. fst (rewrite_memory (Some m) outcome) = Some m'
      \<and> reprocessing_count m' = reprocessing_count m \<and> is_adaptive m' = is_adaptive m"
  by (simp add: rewrite_memory_def Let_def)

lemma retain_memory_Some:
  "\<exists>m'. fst (retain_memory (Some m)) = Some m'
      \<and> reprocessing_count m' = reprocessing_count m \<and> is_adaptive m'"
  by (simp add: retain_memory_def Let_def)

lemma run_cycle_with_absent:
  "memories M i = None \<Longrightarrow>
     run_cycle_with reeval M i r =
       (M, r, [StartingCycle i, ErrorNotFoundForReactivation i, CycleAborted i])"
  by (simp add: run_cycle_with_def reactivate_memory_def)

lemma run_cycle_with_others:
  "j \<noteq> i \<Longrightarrow> memories (fst (run_cycle_with reeval M i r)) j = memories M j"
  by (simp add: run_cycle_with_def reactivate_memory_def Let_def split_beta
           split: option.splits)

lemma run_cycle_with_present:
  assumes "memories M i = Some m"
    and R: "\<And>e m r. \<exists>m'. fst (snd (snd (reeval e (Some m) r))) = Some m'
      \<and> reprocessing_count m' = reprocessing_count m \<and> is_adaptive m' = is_adaptive m"
  shows "\<exists>m'. memories (fst (run_cycle_with reeval M i r)) i = Some m'
      \<and> reprocessing_count m' = reprocessing_count m + 1 \<and> is_adaptive m'"
proof -
  define m1 where "m1 = m\<lparr>reprocessing_count := reprocessing_count m + 1\<rparr>"
  define M1 where "M1 = M\<lparr>memories := (memories M)(i \<mapsto> m1)\<rparr>"
  have react: "reactivate_memory M i
      = (Some m1, M1, [ReactivatingMemory (mem_identifier m1) (reprocessing_count m1)])"
    using assms(1) by (simp add: reactivate_memory_def Let_def m1_def M1_def)
  obtain m2 where m2: "fst (snd (snd (reeval (ecs M1) (Some m1) r))) = Some m2"
    "reprocessing_count m2 = reprocessing_count m1" using R by blast
  obtain m3 where m3: "fst (rewrite_memory (Some m2) (fst (reeval (ecs M1) (Some m1) r))) = Some m3"
    "reprocessing_count m3 = reprocessing_count m2" using rewrite_memory_Some by blast
  obtain m4 where m4: "fst (retain_memory (Some m3)) = Some m4"
    "reprocessing_count m4 = reprocessing_count m3" "is_adaptive m4"
    using retain_memory_Some by blast
  have "memories (fst (run_cycle_with reeval M i r)) i = Some m4"
    by (simp add: run_cycle_with_def react Let_def split_beta m2 m3 m4)
  moreover have "reprocessing_count m4 = reprocessing_count m + 1"
    by (simp add: m4 m3 m2 m1_def)
  ultimately show ?thesis using m4(3) by blast
qed

lemma run_rmm_cycle3_with:
  "run_rmm_cycle3 M memory_id r =
     run_cycle_with (reevaluate_memory (value_system_principles M)) M memory_id r"
  by (simp add: run_rmm_cycle3_def run_cycle_with_def reactivate_memory_def Let_def
        split: option.splits)

lemma run_rmm_cycle4_with:
  "run_rmm_cycle4 M memory_id r = run_cycle_with reevaluate_memory4 M memory_id r"
  by (simp add: run_rmm_cycle4_def run_cycle_with_def)

lemma run_rmm_cycle3_facts:
  "memories M i = None \<Longrightarrow> run_rmm_cycle3 M i r =
       (M, r, [StartingCycle i, ErrorNotFoundForReactivation i, CycleAborted i])"
  "j \<noteq> i \<Longrightarrow> memories (fst (run_rmm_cycle3 M i r)) j = memories M j"
  "memories M i = Some m \<Longrightarrow> \<exists>m'. memories (fst (run_rmm_cycle3 M i r)) i = Some m'
      \<and> reprocessing_count m' = reprocessing_count m + 1 \<and> is_adaptive m'"
  unfolding run_rmm_cycle3_with
  by (simp_all add: run_cycle_with_absent run_cycle_with_others
        run_cycle_with_present[OF _ reevaluate_memory_Some])

lemma run_rmm_cycle4_facts:
  "memories M i = None \<Longrightarrow> run_rmm_cycle4 M i r =
       (M, r, [StartingCycle i, ErrorNotFoundForReactivation i, CycleAborted i])"
  "j \<noteq> i \<Longrightarrow> memories (fst (run_rmm_cycle4 M i r)) j = memories M j"
  "memories M i = Some m \<Longrightarrow> \<exists>m'. memories (fst (run_rmm_cycle4 M i r)) i = Some m'
      \<and> reprocessing_count m' = reprocessing_count m + 1 \<and> is_adaptive m'"
  unfolding run_rmm_cycle4_with
  by (simp_all add: run_cycle_with_absent run_cycle_with_others
        run_cycle_with_present[OF _ reevaluate_memory4_Some])

lemma add_memory_stored:
  "memories (fst (add_memory M i c inference v r)) i
     = Some ((Scored_Memory i c inference v 1.0)\<lparr>value_alignment_scores := fst (predict inference r)\<rparr>)"
  by (simp add: add_memory_def Let_def split_beta)

lemma add_memory3_stored:
  "memories (fst (add_memory3 M i c inference v)) i = Some (Memory i c inference v 1.0)"
  by (simp add: add_memory3_def Let_def)

lemma run_rmm_cycle_completed:
  "memories M i = Some m \<Longrightarrow> fst (run_rmm_cycle M i r) = None \<Longrightarrow>
     \<exists>m'. memories (fst (snd (run_rmm_cycle M i r))) i = Some m' \<and> is_adaptive m'"
  by (auto simp: run_rmm_cycle_def Let_def split_beta retain_def split: if_splits)

lemma run_rmm_cycle_raised:
  "memories M i = Some m \<Longrightarrow> fst (run_rmm_cycle M i r) \<noteq> None \<Longrightarrow>
     \<exists>m'. memories (fst (snd (run_rmm_cycle M i r))) i = Some m' \<and> is_adaptive m' = is_adaptive m"
  by (auto simp: run_rmm_cycle_def Let_def split_beta reevaluate_frame split: if_splits)

lemma run_rmm_cycle_stays_adaptive:
  "memories M j = Some m \<Longrightarrow> is_adaptive m \<Longrightarrow>
     \<exists>m'. memories (fst (snd (run_rmm_cycle M i r))) j = Some m' \<and> is_adaptive m'"
proof (cases "j = i")
  case False
  assume "memories M j = Some m" "is_adaptive m"
  then show ?thesis using run_rmm_cycle_others[OF False] by simp
next
  case True
  assume a: "memories M j = Some m" "is_adaptive m"
  show ?thesis
  proof (cases "fst (run_rmm_cycle M i r) = None")
    case True
    then show ?thesis using run_rmm_cycle_completed a \<open>j = i\<close> by blast
  next
    case False
    then show ?thesis using run_rmm_cycle_raised[of M i m r] a \<open>j = i\<close> by auto
  qed
qed

lemma run_cycle_with_stays_adaptive:
  assumes "memories M j = Some m" "is_adaptive m"
    and R: "\<And>e m r. \<exists>m'. fst (snd (snd (reeval e (Some m) r))) = Some m'
      \<and> reprocessing_count m' = reprocessing_count m \<and> is_adaptive m' = is_adaptive m"
  shows "\<exists>m'. memories (fst (run_cycle_with reeval M i r)) j = Some m' \<and> is_adaptive m'"
proof (cases "j = i")
  case True
  then show ?thesis
    using run_cycle_with_present[where reeval = reeval and M = M and i = i and m = m and r = r]
      R assms(1) by blast
next
  case False
  show ?thesis by (simp add: run_cycle_with_others[OF False] assms(1,2))
qed

subsection \<open>Completed cycles of Code.py\<close>

lemma update_length_new:
  "k \<notin> fst ` set al \<Longrightarrow> length (AList.update k v al) = Suc (length al)"
  by (induction al) auto

lemma predict_loop_length:
  "distinct (map fst tbl) \<Longrightarrow> fst ` set acc \<inter> fst ` set tbl = {} \<Longrightarrow>
     length (fst (predict_loop tbl text acc r)) = length acc + length tbl"
proof (induction tbl arbitrary: acc r)
  case Nil
  then show ?case by simp
next
  case (Cons e tbl)
  obtain p s v where e: "e = (p, s, v)" by (cases e)
  have "p \<notin> fst ` set acc" using Cons.prems(2) e by auto
  then have len: "length (AList.update p x acc) = Suc (length acc)" for x
    by (simp add: update_length_new)
  have "fst ` set (AList.update p x acc) \<inter> fst ` set tbl = {}" for x
    using Cons.prems e by (auto simp: dom_update)
  then show ?case
    using Cons.IH[of "AList.update p (fst (principle_score s v text r)) acc"] Cons.prems(1) len
    by (simp add: e split_beta)
qed

lemma predict_length: "length (fst (predict text r)) = 7"
  unfolding predict_def
  by (subst predict_loop_length) (simp_all add: value_spectrum_keywords_def)

lemma predict_nonempty: "fst (predict text r) \<noteq> []"
  using predict_length[of "text" r] by auto

lemma reevaluate_scores:
  "value_alignment_scores (fst (snd (snd (reevaluate e m r)))) =
     (if fst (reevaluate e m r) = ''inference_corrected''
      then fst (predict (''Improved perspective: '' @ content m) r)
      else value_alignment_scores m)"
  by (simp add: reevaluate_def Let_def split_beta apply_modulation_scores)

lemma reevaluate_inference:
  "current_inference (fst (snd (snd (reevaluate e m r)))) =
     (if fst (reevaluate e m r) = ''inference_corrected''
      then ''Improved perspective: '' @ content m
      else current_inference m)"
  by (simp add: reevaluate_def Let_def split_beta apply_modulation_frame)

lemma reevaluate_scores_nonempty:
  "value_alignment_scores m \<noteq> [] \<Longrightarrow>
     value_alignment_scores (fst (snd (snd (reevaluate e m r)))) \<noteq> []"
  by (simp add: reevaluate_scores predict_nonempty)

lemma run_rmm_cycle_completes:
  "memories M i = Some m \<Longrightarrow> value_alignment_scores m \<noteq> [] \<Longrightarrow> fst (run_rmm_cycle M i r) = None"
  using reevaluate_scores_nonempty[of "m\<lparr>reprocessing_count := reprocessing_count m + 1\<rparr>" "ecs M" r]
  by (simp add: run_rmm_cycle_def Let_def split_beta)

lemma run_rmm_cycle_result:
  assumes "memories M i = Some m" "fst (run_rmm_cycle M i r) = None"
  shows "memories (fst (snd (run_rmm_cycle M i r))) i =
     Some (retain (rewrite
        ((fst (snd (snd (reevaluate (ecs M) (m\<lparr>reprocessing_count := reprocessing_count m + 1\<rparr>) r))))
           \<lparr>agreement_shift := mean (map snd (value_alignment_scores m))
               - mean (map snd (value_alignment_scores (fst (snd (snd (reevaluate (ecs M)
                    (m\<lparr>reprocessing_count := reprocessing_count m + 1\<rparr>) r)))))),
            mischievous_shift := abs_diff
               (series_std (map snd (value_alignment_scores (fst (snd (snd (reevaluate (ecs M)
                    (m\<lparr>reprocessing_count := reprocessing_count m + 1\<rparr>) r)))))))
               (series_std (map snd (value_alignment_scores m)))\<rparr>)
        (fst (reevaluate (ecs M) (m\<lparr>reprocessing_count := reprocessing_count m + 1\<rparr>) r))))"
  using assms by (simp add: run_rmm_cycle_def Let_def split_beta split: if_splits)

subsection \<open>Evaluation with a constant generator\<close>

lemma principle_score_half:
  "principle_score s v t (sconst (1 / 2)) =
     (if 0 < keyword_count s t \<and> keyword_count v t = 0 then 0.85
      else if 0 < keyword_count v t \<and> keyword_count s t = 0 then 0.15
      else 0.5, sconst (1 / 2))"
  by (simp add: principle_score_def Let_def uniform_def py_round2_def round_half_even_def)

lemma predict_boastful:
  "predict ''boastful'' (sconst (1 / 2)) =
     ([(''Pride'', 0.85), (''Envy'', 0.5), (''Gluttony'', 0.5), (''Lust'', 0.5),
       (''Anger'', 0.5), (''Greed'', 0.5), (''Sloth'', 0.5)], sconst (1 / 2))"
  by (simp add: predict_def value_spectrum_keywords_def principle_score_half keyword_count_def
        lower_def lower_char_def)

lemma predict_loop_rng_fixed: "stl r = r \<Longrightarrow> snd (predict_loop tbl t acc r) = r"
proof (induction tbl arbitrary: acc)
  case Nil
  then show ?case by simp
next
  case (Cons e tbl)
  obtain p s v where e: "e = (p, s, v)" by (cases e)
  have "snd (principle_score s v t r) = r" using Cons.prems by simp
  then show ?case unfolding e using Cons by (simp add: split_beta del: principle_score_snd)
qed

lemma predict_sconst: "snd (predict t (sconst x)) = sconst x"
  by (simp add: predict_def predict_loop_rng_fixed)

lemma add_memory_boastful:
  "memories (fst (add_memory RMMModel ''m1'' ''content'' ''boastful'' 0 (sconst (1 / 2)))) ''m1''
     = Some ((Scored_Memory ''m1'' ''content'' ''boastful'' 0 1.0)
              \<lparr>value_alignment_scores := fst (predict ''boastful'' (sconst (1 / 2)))\<rparr>)"
  by (rule add_memory_stored)

lemma add_memory_ecs: "ecs (fst (add_memory M i c inference v r)) = ecs M"
  by (simp add: add_memory_def Let_def split_beta)

lemma run_rmm_cycle_diagnostics:
  assumes "memories M i = Some m" "fst (run_rmm_cycle M i r) = None"
  shows "\<exists>m'. memories (fst (snd (run_rmm_cycle M i r))) i = Some m'
      \<and> value_alignment_scores m' = value_alignment_scores (fst (snd (snd (reevaluate (ecs M)
             (m\<lparr>reprocessing_count := reprocessing_count m + 1\<rparr>) r))))
      \<and> agreement_shift m' = mean (map snd (value_alignment_scores m))
             - mean (map snd (value_alignment_scores m'))
      \<and> mischievous_shift m' = abs_diff (series_std (map snd (value_alignment_scores m')))
             (series_std (map snd (value_alignment_scores m)))"
  unfolding run_rmm_cycle_result[OF assms]
  by (simp add: retain_def rewrite_def Let_def)

lemma predict_improved_content:
  "fst (predict ''Improved perspective: content'' (sconst (1 / 2))) =
     [(''Pride'', 0.5), (''Envy'', 0.5), (''Gluttony'', 0.5), (''Lust'', 0.5),
       (''Anger'', 0.5), (''Greed'', 0.5), (''Sloth'', 0.5)]"
  by (simp add: predict_def value_spectrum_keywords_def principle_score_half keyword_count_def
        lower_def lower_char_def)

lemma run_rmm_cycle_rng_sconst:
  "fst (snd (snd (run_rmm_cycle M i (sconst x)))) = sconst x"
  by (simp add: run_rmm_cycle_def Let_def split_beta reevaluate_def apply_modulation_rng
        predict_sconst split: option.splits)

subsection \<open>Scores in the collections that can be reached\<close>

lemma run_rmm_cycle_stored:
  assumes "memories M i = Some m0"
  shows "\<exists>m'. memories (fst (snd (run_rmm_cycle M i r))) i = Some m'
     \<and> ((value_alignment_scores m' = value_alignment_scores m0
           \<and> current_inference m' = current_inference m0)
         \<or> (current_inference m' = ''Improved perspective: '' @ content m0
           \<and> value_alignment_scores m' = fst (predict (current_inference m') r)))"
proof -
  let ?m1 = "m0\<lparr>reprocessing_count := reprocessing_count m0 + 1\<rparr>"
  let ?res = "reevaluate (ecs M) ?m1 r"
  let ?m2 = "fst (snd (snd ?res))"
  have m2: "(value_alignment_scores ?m2 = value_alignment_scores m0
           \<and> current_inference ?m2 = current_inference m0)
         \<or> (current_inference ?m2 = ''Improved perspective: '' @ content m0
           \<and> value_alignment_scores ?m2 = fst (predict (current_inference ?m2) r))"
    by (simp add: reevaluate_scores reevaluate_inference)
  have cases: "memories (fst (snd (run_rmm_cycle M i r))) i = Some ?m1
      \<or> memories (fst (snd (run_rmm_cycle M i r))) i = Some ?m2
      \<or> (\<exists>m'. memories (fst (snd (run_rmm_cycle M i r))) i = Some m'
            \<and> value_alignment_scores m' = value_alignment_scores ?m2
            \<and> current_inference m' = current_inference ?m2)"
    using assms
    by (simp add: run_rmm_cycle_def Let_def split_beta retain_def rewrite_def)
  then show ?thesis
  proof (elim disjE exE conjE)
    assume "memories (fst (snd (run_rmm_cycle M i r))) i = Some ?m1"
    then show ?thesis by simp
  next
    assume "memories (fst (snd (run_rmm_cycle M i r))) i = Some ?m2"
    then show ?thesis using m2 by simp
  next
    fix m'
    assume "memories (fst (snd (run_rmm_cycle M i r))) i = Some m'"
      "value_alignment_scores m' = value_alignment_scores ?m2"
      "current_inference m' = current_inference ?m2"
    then show ?thesis using m2 by simp
  qed
qed

lemma reachable_scored:
  "reachable M \<Longrightarrow> memories M i = Some m \<Longrightarrow>
     \<exists>r0. unit_draws r0 \<and> value_alignment_scores m = fst (predict (current_inference m) r0)"
proof (induction arbitrary: i m rule: reachable.induct)
  case reachable_init
  then show ?case by (simp add: RMMModel_def)
next
  case (reachable_add M r ident cont inference valence)
  show ?case
  proof (cases "i = ident")
    case True
    then have "m = (Scored_Memory ident cont inference valence 1.0)
                  \<lparr>value_alignment_scores := fst (predict inference r)\<rparr>"
      using reachable_add.prems by (simp add: add_memory_stored)
    then have "value_alignment_scores m = fst (predict (current_inference m) r)"
      by (simp add: Scored_Memory_def)
    then show ?thesis using reachable_add.hyps(2) by blast
  next
    case False
    then have "memories M i = Some m"
      using reachable_add.prems by (simp add: add_memory_def Let_def split_beta)
    then show ?thesis by (rule reachable_add.IH)
  qed
next
  case (reachable_cycle M r ident)
  show ?case
  proof (cases "i = ident")
    case False
    then have "memories M i = Some m"
      using reachable_cycle.prems by (simp add: run_rmm_cycle_others)
    then show ?thesis by (rule reachable_cycle.IH)
  next
    case True
    show ?thesis
    proof (cases "memories M ident")
      case None
      then have "memories M i = Some m"
        using reachable_cycle.prems True by (simp add: run_rmm_cycle_absent)
      then show ?thesis by (rule reachable_cycle.IH)
    next
      case (Some m0)
      from reachable_cycle.IH[OF Some]
      obtain r0 where r0: "unit_draws r0"
        "value_alignment_scores m0 = fst (predict (current_inference m0) r0)" by blast
      from run_rmm_cycle_stored[OF Some, of r] reachable_cycle.prems True
      have "(value_alignment_scores m = value_alignment_scores m0
               \<and> current_inference m = current_inference m0)
         \<or> (current_inference m = ''Improved perspective: '' @ content m0
               \<and> value_alignment_scores m = fst (predict (current_inference m) r))"
        by auto
      then show ?thesis
      proof
        assume "value_alignment_scores m = value_alignment_scores m0
               \<and> current_inference m = current_inference m0"
        then have "value_alignment_scores m = fst (predict (current_inference m) r0)"
          using r0(2) by simp
        then show ?thesis using r0(1) by blast
      next
        assume "current_inference m = ''Improved perspective: '' @ content m0
               \<and> value_alignment_scores m = fst (predict (current_inference m) r)"
        then show ?thesis using reachable_cycle.hyps(2) by blast
      qed
    qed
  qed
qed

lemma uniform_fst_less: "a \<le> b \<Longrightarrow> shd r < 1 \<Longrightarrow> a < b \<Longrightarrow> fst (uniform a b r) < b"
proof -
  assume "a \<le> b" "shd r < 1" "a < b"
  then have "(b - a) * shd r < (b - a) * 1" by (intro mult_strict_left_mono) simp_all
  then show ?thesis by (simp add: uniform_def)
qed

lemma principle_score_low:
  assumes "0 < keyword_count v t" "keyword_count s t = 0" "shd r < 1" "shd (stl r) < 1"
  shows "fst (principle_score s v t r) \<le> 0.35"
proof -
  define p where "p = fst (uniform 0.0 0.3 r)"
  define q where "q = fst (uniform (- 0.05) 0.05 (stl r))"
  define x where "x = max 0.0 (min 1.0 (p + q))"
  have a: "p < 3 / 10"
    unfolding p_def using assms(3) uniform_fst_less[of "0.0" "0.3" r] by simp
  have b: "q < 5 / 100"
    unfolding q_def using assms(4) uniform_fst_less[of "- 0.05" "0.05" "stl r"] by simp
  have x: "x \<le> 35 / 100"
    unfolding x_def using a b by (auto simp: max_def min_def)
  have "fst (principle_score s v t r) = py_round2 x"
    unfolding x_def p_def q_def using assms(1,2)
    by (simp add: principle_score_def Let_def split_beta)
  then show ?thesis
    using py_round2_le[of x 35] x by simp
qed

lemma unit_draws_stl: "unit_draws r \<Longrightarrow> unit_draws (stl r)"
  unfolding unit_draws_def by (meson stl_sset)

lemma unit_draws_shd: "unit_draws r \<Longrightarrow> 0 \<le> shd r \<and> shd r < 1"
  unfolding unit_draws_def by (simp add: shd_sset)

lemma predict_loop_entry:
  assumes "distinct (map fst tbl)" "(p, s, v) \<in> set tbl" "unit_draws r"
    and P: "\<And>r'. unit_draws r' \<Longrightarrow> P (fst (principle_score s v txt r'))"
  shows "\<exists>x. map_of (fst (predict_loop tbl txt acc r)) p = Some x \<and> P x"
  using assms(1,2,3)
proof (induction tbl arbitrary: acc r)
  case Nil
  then show ?case by simp
next
  case (Cons e tbl)
  obtain p' s' v' where e: "e = (p', s', v')" by (cases e)
  have r2: "unit_draws (stl (stl r))" using Cons.prems(3) by (intro unit_draws_stl)
  show ?case
  proof (cases "(p, s, v) = e")
    case True
    then have notin: "p \<notin> fst ` set tbl" using Cons.prems(1) by force
    have "P (fst (principle_score s v txt r))" using P Cons.prems(3) by blast
    then show ?thesis
      using True e predict_loop_other[OF notin] by (simp add: split_beta update_conv')
  next
    case False
    then have "(p, s, v) \<in> set tbl" using Cons.prems(2) by simp
    moreover have "distinct (map fst tbl)" using Cons.prems(1) by simp
    ultimately show ?thesis
      using Cons.IH[OF _ _ r2] by (simp add: e split_beta)
  qed
qed

lemma predict_bands:
  assumes "unit_draws r" "(p, s, v) \<in> set value_spectrum_keywords"
  shows "\<exists>x. map_of (fst (predict txt r)) p = Some x
      \<and> (0 < keyword_count s (lower txt) \<and> keyword_count v (lower txt) = 0 \<longrightarrow> 0.65 \<le> x)
      \<and> (0 < keyword_count v (lower txt) \<and> keyword_count s (lower txt) = 0 \<longrightarrow> x \<le> 0.35)"
  unfolding predict_def
proof (rule predict_loop_entry[OF _ assms(2,1)])
  show "distinct (map fst value_spectrum_keywords)" by (simp add: value_spectrum_keywords_def)
next
  fix r' :: rng
  assume u: "unit_draws r'"
  have a: "0 \<le> shd r' \<and> shd r' < 1" using u by (rule unit_draws_shd)
  have b: "0 \<le> shd (stl r') \<and> shd (stl r') < 1"
    using unit_draws_stl[OF u] by (rule unit_draws_shd)
  show "(0 < keyword_count s (lower txt) \<and> keyword_count v (lower txt) = 0
           \<longrightarrow> 0.65 \<le> fst (principle_score s v (lower txt) r'))
      \<and> (0 < keyword_count v (lower txt) \<and> keyword_count s (lower txt) = 0
           \<longrightarrow> fst (principle_score s v (lower txt) r') \<le> 0.35)"
    using principle_score_high[of s "lower txt" v r'] principle_score_low[of v "lower txt" s r'] a b
    by blast
qed

lemma reevaluate_rng:
  "snd (snd (snd (reevaluate e m r))) =
     (if fst (reevaluate e m r) = ''inference_corrected''
      then stl (stl (snd (predict (''Improved perspective: '' @ content m) r)))
      else stl (stl r))"
  by (simp add: reevaluate_def Let_def split_beta apply_modulation_rng)

lemma principle_score_zero:
  "principle_score s v t (sconst 0) =
     (if 0 < keyword_count s t \<and> keyword_count v t = 0 then 0.65
      else if 0 < keyword_count v t \<and> keyword_count s t = 0 then 0
      else if 0 < keyword_count s t \<and> 0 < keyword_count v t then 0.25
      else 0.3, sconst 0)"
  by (simp add: principle_score_def Let_def uniform_def py_round2_def round_half_even_def)

lemma predict_boastful_zero:
  "fst (predict ''boastful'' (sconst 0)) =
     [(''Pride'', 0.65), (''Envy'', 0.3), (''Gluttony'', 0.3), (''Lust'', 0.3),
       (''Anger'', 0.3), (''Greed'', 0.3), (''Sloth'', 0.3)]"
  by (simp add: predict_def value_spectrum_keywords_def principle_score_zero keyword_count_def
        lower_def lower_char_def)

lemma unit_draws_half: "unit_draws (sconst (1 / 2))"
  by (simp add: unit_draws_def)

subsection \<open>Repeated dissonance in Code3.py\<close>

lemma dissonant_reevaluate3:
  assumes "current_inference m = ''gain''" "baseline_modulation_strength e = 0.1"
    "0.1 \<le> strength m"
  shows "\<exists>e' m' out.
     reevaluate_memory [''Greedy'', ''Angry'', ''Affiliational''] e (Some m)
         (cycle [0, 9 / 10, 1 / 2, 1 / 2])
       = (''dissonance_high'', e', Some m', cycle [0, 9 / 10, 1 / 2, 1 / 2], out)
     \<and> baseline_modulation_strength e' = 0.1
     \<and> m' = m\<lparr>strength := strength m, current_valence := max (- 1) (min 1 (current_valence m))\<rparr>"
  using assms
  by (simp add: reevaluate_memory_def value_check_def random_random_def Let_def
        lower_def lower_char_def get_feedback_signal_def apply_modulation_def uniform_def max_def)

lemma dissonant_cycle3:
  assumes "value_system_principles M = [''Greedy'', ''Angry'', ''Affiliational'']"
    "baseline_modulation_strength (ecs M) = 0.1"
    "memories M i = Some m" "current_inference m = ''gain''" "0.1 \<le> strength m"
  shows "\<exists>M' m' out.
     run_rmm_cycle3 M i (cycle [0, 9 / 10, 1 / 2, 1 / 2])
       = (M', cycle [0, 9 / 10, 1 / 2, 1 / 2], out)
     \<and> value_system_principles M' = [''Greedy'', ''Angry'', ''Affiliational'']
     \<and> baseline_modulation_strength (ecs M') = 0.1
     \<and> memories M' i = Some m'
     \<and> current_inference m' = ''gain''
     \<and> strength m' = strength m * 0.8
     \<and> reprocessing_count m' = reprocessing_count m + 1"
proof -
  let ?m1 = "m\<lparr>reprocessing_count := reprocessing_count m + 1\<rparr>"
  let ?M1 = "M\<lparr>memories := (memories M)(i \<mapsto> ?m1)\<rparr>"
  have react: "reactivate_memory M i
      = (Some ?m1, ?M1, [ReactivatingMemory (mem_identifier ?m1) (reprocessing_count ?m1)])"
    using assms(3) by (simp add: reactivate_memory_def Let_def)
  have "current_inference ?m1 = ''gain''" "baseline_modulation_strength (ecs M) = 0.1"
    "0.1 \<le> strength ?m1"
    using assms by simp_all
  from dissonant_reevaluate3[OF this]
  obtain e' m' out where re:
    "reevaluate_memory [''Greedy'', ''Angry'', ''Affiliational''] (ecs M) (Some ?m1)
         (cycle [0, 9 / 10, 1 / 2, 1 / 2])
       = (''dissonance_high'', e', Some m', cycle [0, 9 / 10, 1 / 2, 1 / 2], out)"
    "baseline_modulation_strength e' = 0.1"
    "m' = ?m1\<lparr>strength := strength ?m1,
              current_valence := max (- 1) (min 1 (current_valence ?m1))\<rparr>"
    by blast
  show ?thesis
    unfolding run_rmm_cycle3_with run_cycle_with_def react assms(1)
    using assms(1,4)
    by (simp add: re Let_def rewrite_memory_def retain_memory_def)
qed

lemma dissonant_cycles3:
  "value_system_principles M = [''Greedy'', ''Angry'', ''Affiliational''] \<Longrightarrow>
   baseline_modulation_strength (ecs M) = 0.1 \<Longrightarrow>
   memories M i = Some m \<Longrightarrow> current_inference m = ''gain'' \<Longrightarrow>
   n = 0 \<or> 0.1 \<le> strength m * 0.8 ^ (n - 1) \<Longrightarrow>
   \<exists>m'. memories (fst (run_rmm_cycles3 M (replicate n i) (cycle [0, 9 / 10, 1 / 2, 1 / 2]))) i
           = Some m'
      \<and> strength m' = strength m * 0.8 ^ n
      \<and> reprocessing_count m' = reprocessing_count m + int n"
proof (induction n arbitrary: M m)
  case 0
  then show ?case by simp
next
  case (Suc n)
  have big: "0.1 \<le> strength m * 0.8 ^ n" using Suc.prems(5) by simp
  have p: "(0 :: real) \<le> 0.8 ^ n" "(0.8 :: real) ^ n \<le> 1" by (simp_all add: power_le_one)
  have s0: "0.1 \<le> strength m"
  proof (cases "0 \<le> strength m")
    case True
    then have "strength m * 0.8 ^ n \<le> strength m * 1"
      using p(2) by (intro mult_left_mono)
    then show ?thesis using big by linarith
  next
    case False
    then have "strength m \<le> 0" by simp
    then have "strength m * 0.8 ^ n \<le> 0"
      using p(1) by (rule mult_nonpos_nonneg)
    then show ?thesis using big by linarith
  qed
  from dissonant_cycle3[OF Suc.prems(1,2,3,4) s0]
  obtain M' m' out where step:
    "run_rmm_cycle3 M i (cycle [0, 9 / 10, 1 / 2, 1 / 2])
       = (M', cycle [0, 9 / 10, 1 / 2, 1 / 2], out)"
    "value_system_principles M' = [''Greedy'', ''Angry'', ''Affiliational'']"
    "baseline_modulation_strength (ecs M') = 0.1"
    "memories M' i = Some m'"
    "current_inference m' = ''gain''"
    "strength m' = strength m * 0.8"
    "reprocessing_count m' = reprocessing_count m + 1"
    by blast
  have s1: "n = 0 \<or> 0.1 \<le> strength m' * 0.8 ^ (n - 1)"
  proof (cases n)
    case 0
    then show ?thesis by simp
  next
    case (Suc k)
    have "strength m' * 0.8 ^ (n - 1) = strength m * 0.8 ^ n"
      unfolding step(6) Suc by simp
    then show ?thesis using big by simp
  qed
  from Suc.IH[OF step(2,3,4,5) s1]
  obtain m'' where m'': "memories (fst (run_rmm_cycles3 M' (replicate n i)
        (cycle [0, 9 / 10, 1 / 2, 1 / 2]))) i = Some m''"
    "strength m'' = strength m' * 0.8 ^ n"
    "reprocessing_count m'' = reprocessing_count m' + int n"
    by blast
  show ?case
    using m'' step(6,7) by (simp add: step(1))
qed

subsection \<open>Ranges of strength, valence and scores\<close>

lemma rewrite_ranges:
  assumes "outcome = ''inference_corrected'' \<or> outcome = ''no_change''"
    "0.1 \<le> strength m" "- 1 \<le> current_valence m" "current_valence m \<le> 1"
  shows "0.1 \<le> strength (rewrite m outcome) \<and> - 1 \<le> current_valence (rewrite m outcome)
     \<and> current_valence (rewrite m outcome) \<le> 1"
  using assms by (auto simp: rewrite_def Let_def)

lemma reevaluate_modulated:
  "\<exists>e' m1 r1. fst (snd (snd (reevaluate e m r))) = fst (apply_modulation e' m1 r1)"
  unfolding reevaluate_def Let_def split_beta by (simp only: fst_conv snd_conv) blast

lemma reevaluate_ranges:
  "0.1 \<le> strength (fst (snd (snd (reevaluate e m r))))
   \<and> - 1 \<le> current_valence (fst (snd (snd (reevaluate e m r))))
   \<and> current_valence (fst (snd (snd (reevaluate e m r)))) \<le> 1"
proof -
  obtain e' m1 r1 where "fst (snd (snd (reevaluate e m r))) = fst (apply_modulation e' m1 r1)"
    using reevaluate_modulated by blast
  then show ?thesis using apply_modulation_bounds[of e' m1 r1] by (intro conjI) simp_all
qed

lemma reevaluate_scores_range:
  assumes "\<forall>(k, v) \<in> set (value_alignment_scores m). 0 \<le> v \<and> v \<le> 1"
  shows "\<forall>(k, v) \<in> set (value_alignment_scores (fst (snd (snd (reevaluate e m r))))). 0 \<le> v \<and> v \<le> 1"
proof (cases "fst (reevaluate e m r) = ''inference_corrected''")
  case True
  then show ?thesis
    using predict_range[of "''Improved perspective: '' @ content m" r]
    by (auto simp: reevaluate_scores)
next
  case False
  then show ?thesis using assms by (simp add: reevaluate_scores)
qed

lemma run_rmm_cycle_keeps_ranges:
  assumes inv: "\<And>j m. memories M j = Some m \<Longrightarrow>
      0.1 \<le> strength m \<and> - 1 \<le> current_valence m \<and> current_valence m \<le> 1
      \<and> (\<forall>(k, v) \<in> set (value_alignment_scores m). 0 \<le> v \<and> v \<le> 1)"
    and m': "memories (fst (snd (run_rmm_cycle M i r))) j = Some m'"
  shows "0.1 \<le> strength m' \<and> - 1 \<le> current_valence m' \<and> current_valence m' \<le> 1
      \<and> (\<forall>(k, v) \<in> set (value_alignment_scores m'). 0 \<le> v \<and> v \<le> 1)"
proof (cases "j = i")
  case False
  then show ?thesis using inv m' by (simp add: run_rmm_cycle_others)
next
  case True
  show ?thesis
  proof (cases "memories M i")
    case None
    then show ?thesis using inv m' True by (simp add: run_rmm_cycle_absent)
  next
    case (Some m0)
    let ?m1 = "m0\<lparr>reprocessing_count := reprocessing_count m0 + 1\<rparr>"
    let ?res = "reevaluate (ecs M) ?m1 r"
    let ?m2 = "fst (snd (snd ?res))"
    have i0: "0.1 \<le> strength m0 \<and> - 1 \<le> current_valence m0 \<and> current_valence m0 \<le> 1
      \<and> (\<forall>(k, v) \<in> set (value_alignment_scores m0). 0 \<le> v \<and> v \<le> 1)"
      using inv Some by blast
    have sc2: "\<forall>(k, v) \<in> set (value_alignment_scores ?m2). 0 \<le> v \<and> v \<le> 1"
      by (rule reevaluate_scores_range) (use i0 in simp)
    have o: "fst ?res = ''inference_corrected'' \<or> fst ?res = ''no_change''"
      by (simp add: reevaluate_outcome)
    have r2: "0.1 \<le> strength ?m2 \<and> - 1 \<le> current_valence ?m2 \<and> current_valence ?m2 \<le> 1"
      by (rule reevaluate_ranges)
    have rw: "0.1 \<le> strength (rewrite m3 (fst ?res)) \<and> - 1 \<le> current_valence (rewrite m3 (fst ?res))
        \<and> current_valence (rewrite m3 (fst ?res)) \<le> 1"
      if "strength m3 = strength ?m2" "current_valence m3 = current_valence ?m2" for m3
      using rewrite_ranges[OF o, of m3] r2 that by simp
    have "m' = ?m1 \<or> m' = ?m2
        \<or> m' = retain (rewrite (?m2\<lparr>agreement_shift := mean (map snd (value_alignment_scores ?m1))
                  - mean (map snd (value_alignment_scores ?m2)),
               mischievous_shift := abs_diff (series_std (map snd (value_alignment_scores ?m2)))
                  (series_std (map snd (value_alignment_scores ?m1)))\<rparr>) (fst ?res))"
      using m' True Some
      by (simp add: run_rmm_cycle_def Let_def split_beta split: if_splits)
    then show ?thesis
    proof (elim disjE)
      assume "m' = ?m1"
      then show ?thesis using i0 by simp
    next
      assume "m' = ?m2"
      then show ?thesis using r2 sc2 by simp
    next
      assume e: "m' = retain (rewrite (?m2\<lparr>agreement_shift := mean (map snd (value_alignment_scores ?m1))
                  - mean (map snd (value_alignment_scores ?m2)),
               mischievous_shift := abs_diff (series_std (map snd (value_alignment_scores ?m2)))
                  (series_std (map snd (value_alignment_scores ?m1)))\<rparr>) (fst ?res))"
      show ?thesis
        unfolding e using rw[of "?m2\<lparr>agreement_shift := mean (map snd (value_alignment_scores ?m1))
                  - mean (map snd (value_alignment_scores ?m2)),
               mischievous_shift := abs_diff (series_std (map snd (value_alignment_scores ?m2)))
                  (series_std (map snd (value_alignment_scores ?m1)))\<rparr>"] sc2
        by (simp add: retain_def rewrite_frame)
    qed
  qed
qed

lemma add_memory_ranges:
  assumes "- 1 \<le> valence" "valence \<le> 1"
    and "memories (fst (add_memory M i c inference valence r)) i = Some m"
  shows "0.1 \<le> strength m \<and> - 1 \<le> current_valence m \<and> current_valence m \<le> 1
      \<and> (\<forall>(k, v) \<in> set (value_alignment_scores m). 0 \<le> v \<and> v \<le> 1)"
  using assms predict_range[of inference r]
  by (auto simp: add_memory_stored Scored_Memory_def)

lemma reevaluate_memory_modulated:
  "\<exists>e' m1 r1. fst (snd (snd (reevaluate_memory ps e (Some m) r)))
      = Some (fst (apply_modulation e' m1 r1))"
  unfolding reevaluate_memory_def Let_def split_beta
  by (simp only: fst_conv snd_conv option.case) blast

lemma reevaluate_memory4_modulated:
  "\<exists>e' m1 r1. fst (snd (snd (reevaluate_memory4 e (Some m) r)))
      = Some (fst (apply_modulation e' m1 r1))"
  unfolding reevaluate_memory4_def Let_def split_beta
  by (simp only: fst_conv snd_conv option.case) blast

lemma rewrite_memory_ranges:
  assumes "0.1 \<le> strength m" "- 1 \<le> current_valence m" "current_valence m \<le> 1"
  shows "\<exists>m'. fst (rewrite_memory (Some m) outcome) = Some m'
     \<and> 0.08 \<le> strength m' \<and> - 1 \<le> current_valence m' \<and> current_valence m' \<le> 1"
  using assms by (simp add: rewrite_memory_def Let_def)

lemma retain_memory_ranges:
  "fst (retain_memory (Some m)) = Some (m\<lparr>is_adaptive := True\<rparr>)"
  by (simp add: retain_memory_def Let_def)

lemma run_cycle_with_ranges:
  assumes "memories M i = Some m"
    and R: "\<And>e m r. \<exists>e' m1 r1. fst (snd (snd (reeval e (Some m) r)))
      = Some (fst (apply_modulation e' m1 r1))"
  shows "\<exists>m'. memories (fst (run_cycle_with reeval M i r)) i = Some m'
      \<and> 0.08 \<le> strength m' \<and> - 1 \<le> current_valence m' \<and> current_valence m' \<le> 1"
proof -
  define m1 where "m1 = m\<lparr>reprocessing_count := reprocessing_count m + 1\<rparr>"
  define M1 where "M1 = M\<lparr>memories := (memories M)(i \<mapsto> m1)\<rparr>"
  have react: "reactivate_memory M i
      = (Some m1, M1, [ReactivatingMemory (mem_identifier m1) (reprocessing_count m1)])"
    using assms(1) by (simp add: reactivate_memory_def Let_def m1_def M1_def)
  obtain e' m1' r1 where m2: "fst (snd (snd (reeval (ecs M1) (Some m1) r)))
      = Some (fst (apply_modulation e' m1' r1))"
    using R by blast
  let ?m2 = "fst (apply_modulation e' m1' r1)"
  have b: "0.1 \<le> strength ?m2" "- 1 \<le> current_valence ?m2" "current_valence ?m2 \<le> 1"
    by (rule apply_modulation_bounds)+
  from rewrite_memory_ranges[OF b]
  obtain m3 where m3: "fst (rewrite_memory (Some ?m2) (fst (reeval (ecs M1) (Some m1) r))) = Some m3"
    "0.08 \<le> strength m3" "- 1 \<le> current_valence m3" "current_valence m3 \<le> 1"
    by blast
  have "memories (fst (run_cycle_with reeval M i r)) i = Some (m3\<lparr>is_adaptive := True\<rparr>)"
    by (simp add: run_cycle_with_def react Let_def split_beta m2 m3(1) retain_memory_ranges)
  then show ?thesis using m3(2,3,4) by simp
qed

lemma run_rmm_cycle3_ranges:
  "memories M i = Some m \<Longrightarrow>
     \<exists>m'. memories (fst (run_rmm_cycle3 M i r)) i = Some m'
      \<and> 0.08 \<le> strength m' \<and> - 1 \<le> current_valence m' \<and> current_valence m' \<le> 1"
  unfolding run_rmm_cycle3_with
  by (rule run_cycle_with_ranges) (simp, rule reevaluate_memory_modulated)

lemma run_rmm_cycle4_ranges:
  "memories M i = Some m \<Longrightarrow>
     \<exists>m'. memories (fst (run_rmm_cycle4 M i r)) i = Some m'
      \<and> 0.08 \<le> strength m' \<and> - 1 \<le> current_valence m' \<and> current_valence m' \<le> 1"
  unfolding run_rmm_cycle4_with
  by (rule run_cycle_with_ranges) (simp, rule reevaluate_memory4_modulated)

section \<open>The claims\<close>

text \<open>
  Claim C1 says that after every completed cycle the strength of a memory is at least 0.1
  (and its valence lies between -1 and 1, its scores between 0 and 1). In \<open>Code.py\<close> this
  is so (\<open>run_rmm_cycle_keeps_ranges\<close> above), and in \<open>Code3.py\<close> the valence stays in
  range and the strength is at least 0.08 (\<open>run_rmm_cycle3_ranges\<close>,
  \<open>run_rmm_cycle4_ranges\<close>). The floor 0.1 itself does not hold in \<open>Code3.py\<close>:
  \<open>rewrite_memory\<close> multiplies the strength by 0.8 on \<open>dissonance_high\<close> after
  \<open>apply_modulation\<close> has clamped it, and clamps only the valence. The theorem runs the
  first copy of the engine: a memory added with the inference "gain", then eleven cycles in
  each of which the generator returns 0 (the "Greedy" check fires), 0.9 (the correction
  fails), 0.5 and 0.5 (no modulation noise); \<open>cycle\<close> is the stream that repeats these
  four values. The strength ends at 0.8 to the power 11, below 0.1.
\<close>

theorem strength_floor_broken:
  "\<exists>m. memories (fst (run_rmm_cycles3
            (fst (add_memory3 RMMModel3 ''m1'' ''content'' ''gain'' 0))
            (replicate 11 ''m1'') (cycle [0, 9 / 10, 1 / 2, 1 / 2]))) ''m1'' = Some m
      \<and> reprocessing_count m = 11
      \<and> strength m = 0.8 ^ 11
      \<and> strength m < 0.1"
proof -
  let ?M = "fst (add_memory3 RMMModel3 ''m1'' ''content'' ''gain'' 0)"
  let ?m = "Memory ''m1'' ''content'' ''gain'' 0 1.0"
  have a: "memories ?M ''m1'' = Some ?m" by (rule add_memory3_stored)
  have b: "value_system_principles ?M = [''Greedy'', ''Angry'', ''Affiliational'']"
    "baseline_modulation_strength (ecs ?M) = 0.1"
    by (simp_all add: add_memory3_def Let_def RMMModel3_def EndocannabinoidSystem_def)
  have c: "current_inference ?m = ''gain''" "0.1 \<le> strength ?m" "strength ?m = 1"
    "reprocessing_count ?m = 0"
    by (simp_all add: Memory_def)
  have "0.1 \<le> strength ?m * 0.8 ^ (11 - 1)"
    unfolding c(3) by (simp add: power_numeral_reduce)
  then have d: "(11 :: nat) = 0 \<or> 0.1 \<le> strength ?m * 0.8 ^ (11 - 1)" by (rule disjI2)
  from dissonant_cycles3[OF b a c(1) d]
  obtain m where m: "memories (fst (run_rmm_cycles3 ?M (replicate 11 ''m1'')
        (cycle [0, 9 / 10, 1 / 2, 1 / 2]))) ''m1'' = Some m"
    "strength m = strength ?m * 0.8 ^ 11"
    "reprocessing_count m = reprocessing_count ?m + int 11"
    by blast
  have e: "strength m = 0.8 ^ 11" using m(2) c(3) by simp
  have f: "(0.8 :: real) ^ 11 < 0.1" by (simp add: power_numeral_reduce)
  show ?thesis using m(1,3) e f c(4) by auto
qed

text \<open>
  Claim C2, as amended. Let a memory be stored in a collection that \<open>add_memory\<close> and
  \<open>run_rmm_cycle\<close> of \<open>Code.py\<close> have built with draws of the unit interval. The
  re-evaluation stage decides on the scores stored on the memory and does not score the
  inference again first. These stored scores are what \<open>predict\<close> returned for the current
  inference when it was set (at the add, or at the last triggered re-evaluation), for draws
  of the unit interval; so a principle with a "sin" keyword and no "virtue" keyword in the
  lower-cased inference has a stored score of at least 0.65, and one with a "virtue" keyword
  and no "sin" keyword a stored score of at most 0.35. The outcome is
  \<open>inference_corrected\<close> exactly when a stored score exceeds 0.75; then the inference
  becomes "Improved perspective: " followed by the content and the scores are those that
  \<open>predict\<close> returns for the new inference from the generator the stage was entered with;
  otherwise the outcome is \<open>no_change\<close>, the inference and the scores are unchanged, and
  the stage has drawn only the two modulation values.
\<close>

theorem reevaluate_threshold:
  "reachable M \<and> memories M i = Some m \<longrightarrow>
     (\<exists>r0. unit_draws r0
         \<and> value_alignment_scores m = fst (predict (current_inference m) r0))
     \<and> (\<forall>p s v. (p, s, v) \<in> set value_spectrum_keywords \<longrightarrow>
           (\<exists>x. map_of (value_alignment_scores m) p = Some x
              \<and> (0 < keyword_count s (lower (current_inference m))
                   \<and> keyword_count v (lower (current_inference m)) = 0 \<longrightarrow> 0.65 \<le> x)
              \<and> (0 < keyword_count v (lower (current_inference m))
                   \<and> keyword_count s (lower (current_inference m)) = 0 \<longrightarrow> x \<le> 0.35)))
     \<and> (let res = reevaluate (ecs M) (m\<lparr>reprocessing_count := reprocessing_count m + 1\<rparr>) r;
             outcome = fst res;
             m' = fst (snd (snd res));
             r' = snd (snd (snd res))
         in (outcome = ''inference_corrected''
               \<longleftrightarrow> (\<exists>(k, v) \<in> set (value_alignment_scores m). 0.75 < v))
            \<and> (outcome = ''inference_corrected'' \<longrightarrow>
                 current_inference m' = ''Improved perspective: '' @ content m
                 \<and> value_alignment_scores m' = fst (predict (current_inference m') r))
            \<and> (outcome \<noteq> ''inference_corrected'' \<longrightarrow>
                 outcome = ''no_change''
                 \<and> current_inference m' = current_inference m
                 \<and> value_alignment_scores m' = value_alignment_scores m
                 \<and> r' = stl (stl r)))"
proof (intro impI conjI allI)
  assume a: "reachable M \<and> memories M i = Some m"
  then show "\<exists>r0. unit_draws r0
         \<and> value_alignment_scores m = fst (predict (current_inference m) r0)"
    using reachable_scored by blast
next
  fix p s v
  assume a: "reachable M \<and> memories M i = Some m"
    and e: "(p, s, v) \<in> set value_spectrum_keywords"
  from a reachable_scored obtain r0 where r0: "unit_draws r0"
    "value_alignment_scores m = fst (predict (current_inference m) r0)" by blast
  show "\<exists>x. map_of (value_alignment_scores m) p = Some x
              \<and> (0 < keyword_count s (lower (current_inference m))
                   \<and> keyword_count v (lower (current_inference m)) = 0 \<longrightarrow> 0.65 \<le> x)
              \<and> (0 < keyword_count v (lower (current_inference m))
                   \<and> keyword_count s (lower (current_inference m)) = 0 \<longrightarrow> x \<le> 0.35)"
    unfolding r0(2) by (rule predict_bands[OF r0(1) e])
next
  show "let res = reevaluate (ecs M) (m\<lparr>reprocessing_count := reprocessing_count m + 1\<rparr>) r;
             outcome = fst res;
             m' = fst (snd (snd res));
             r' = snd (snd (snd res))
         in (outcome = ''inference_corrected''
               \<longleftrightarrow> (\<exists>(k, v) \<in> set (value_alignment_scores m). 0.75 < v))
            \<and> (outcome = ''inference_corrected'' \<longrightarrow>
                 current_inference m' = ''Improved perspective: '' @ content m
                 \<and> value_alignment_scores m' = fst (predict (current_inference m') r))
            \<and> (outcome \<noteq> ''inference_corrected'' \<longrightarrow>
                 outcome = ''no_change''
                 \<and> current_inference m' = current_inference m
                 \<and> value_alignment_scores m' = value_alignment_scores m
                 \<and> r' = stl (stl r))"
  proof -
    let ?res = "reevaluate (ecs M) (m\<lparr>reprocessing_count := reprocessing_count m + 1\<rparr>) r"
    have A: "fst ?res = ''inference_corrected''
               \<longleftrightarrow> (\<exists>(k, v) \<in> set (value_alignment_scores m). 0.75 < v)"
    proof (cases "\<exists>(k, v) \<in> set (value_alignment_scores m). 0.75 < v")
      case True
      then have "fst ?res = ''inference_corrected''" by (simp add: reevaluate_outcome)
      then show ?thesis using True by blast
    next
      case False
      then have "fst ?res = ''no_change''" by (simp add: reevaluate_outcome)
      then have "fst ?res \<noteq> ''inference_corrected''" by simp
      then show ?thesis using False by blast
    qed
    have B: "fst ?res = ''inference_corrected'' \<longrightarrow>
                 current_inference (fst (snd (snd ?res))) = ''Improved perspective: '' @ content m
                 \<and> value_alignment_scores (fst (snd (snd ?res)))
                    = fst (predict (current_inference (fst (snd (snd ?res)))) r)"
      by (simp add: reevaluate_scores reevaluate_inference)
    have "fst ?res = ''inference_corrected'' \<or> fst ?res = ''no_change''"
      by (simp add: reevaluate_outcome)
    then have C: "fst ?res \<noteq> ''inference_corrected'' \<longrightarrow>
                 fst ?res = ''no_change''
                 \<and> current_inference (fst (snd (snd ?res))) = current_inference m
                 \<and> value_alignment_scores (fst (snd (snd ?res))) = value_alignment_scores m
                 \<and> snd (snd (snd ?res)) = stl (stl r)"
      by (auto simp: reevaluate_scores reevaluate_inference reevaluate_rng)
    show ?thesis unfolding Let_def using A B C by (intro conjI)
  qed
qed

theorem reevaluate_threshold_witness:
  "reachable (fst (add_memory RMMModel ''m1'' ''content'' ''boastful'' 0 (sconst (1 / 2))))
   \<and> (\<exists>r0. unit_draws r0
         \<and> fst (predict ''boastful'' (sconst (1 / 2))) = fst (predict ''boastful'' r0))
   \<and> (\<exists>x. map_of (fst (predict ''boastful'' (sconst (1 / 2)))) ''Pride'' = Some x \<and> 0.65 \<le> x)
   \<and> fst (reevaluate
        (ecs (fst (add_memory RMMModel ''m1'' ''content'' ''boastful'' 0 (sconst (1 / 2)))))
        ((Scored_Memory ''m1'' ''content'' ''boastful'' 0 1.0)
           \<lparr>value_alignment_scores := fst (predict ''boastful'' (sconst (1 / 2))),
            reprocessing_count := 1\<rparr>)
        (sconst (1 / 2))) = ''inference_corrected''
   \<and> current_inference (fst (snd (snd (reevaluate
        (ecs (fst (add_memory RMMModel ''m1'' ''content'' ''boastful'' 0 (sconst (1 / 2)))))
        ((Scored_Memory ''m1'' ''content'' ''boastful'' 0 1.0)
           \<lparr>value_alignment_scores := fst (predict ''boastful'' (sconst (1 / 2))),
            reprocessing_count := 1\<rparr>)
        (sconst (1 / 2)))))) = ''Improved perspective: content''"
proof -
  let ?r = "sconst (1 / 2 :: real)"
  let ?M = "fst (add_memory RMMModel ''m1'' ''content'' ''boastful'' 0 ?r)"
  let ?m = "(Scored_Memory ''m1'' ''content'' ''boastful'' 0 1.0)
              \<lparr>value_alignment_scores := fst (predict ''boastful'' ?r)\<rparr>"
  have a: "memories ?M ''m1'' = Some ?m" by (rule add_memory_boastful)
  have re: "reachable ?M" by (intro reachable_add reachable_init unit_draws_half)
  have hi: "\<exists>(k, v) \<in> set (value_alignment_scores ?m). 0.75 < v"
    by (simp add: predict_boastful)
  have m1: "?m\<lparr>reprocessing_count := reprocessing_count ?m + 1\<rparr>
      = (Scored_Memory ''m1'' ''content'' ''boastful'' 0 1.0)
           \<lparr>value_alignment_scores := fst (predict ''boastful'' ?r), reprocessing_count := 1\<rparr>"
    by (simp add: Scored_Memory_def)
  have c: "content ?m = ''content''" "current_inference ?m = ''boastful''"
    "value_alignment_scores ?m = fst (predict ''boastful'' ?r)"
    by (simp_all add: Scored_Memory_def)
  note t = reevaluate_threshold[of ?M "''m1''" ?m ?r, rule_format, OF conjI[OF re a],
      unfolded Let_def m1 c]
  note t3 = t[THEN conjunct2, THEN conjunct2]
  have pride: "(''Pride'', [''superior'', ''arrogant'', ''boastful''], [''humble'', ''modest''])
      \<in> set value_spectrum_keywords"
    by (simp add: value_spectrum_keywords_def)
  have kw: "0 < keyword_count [''superior'', ''arrogant'', ''boastful''] (lower ''boastful'')
      \<and> keyword_count [''humble'', ''modest''] (lower ''boastful'') = 0"
    by (simp add: keyword_count_def lower_def lower_char_def)
  from t[THEN conjunct2, THEN conjunct1, rule_format, OF pride]
  obtain x where x: "map_of (fst (predict ''boastful'' ?r)) ''Pride'' = Some x
      \<and> (0 < keyword_count [''superior'', ''arrogant'', ''boastful''] (lower ''boastful'')
            \<and> keyword_count [''humble'', ''modest''] (lower ''boastful'') = 0 \<longrightarrow> 0.65 \<le> x)
      \<and> (0 < keyword_count [''humble'', ''modest''] (lower ''boastful'')
            \<and> keyword_count [''superior'', ''arrogant'', ''boastful''] (lower ''boastful'') = 0
           \<longrightarrow> x \<le> 0.35)" ..
  then have band: "\<exists>x. map_of (fst (predict ''boastful'' ?r)) ''Pride'' = Some x \<and> 0.65 \<le> x"
    using kw by blast
  have o: "fst (reevaluate (ecs ?M)
        ((Scored_Memory ''m1'' ''content'' ''boastful'' 0 1.0)
           \<lparr>value_alignment_scores := fst (predict ''boastful'' ?r), reprocessing_count := 1\<rparr>)
        ?r) = ''inference_corrected''"
    using t3[THEN conjunct1] hi[unfolded c] by blast
  have inf: "current_inference (fst (snd (snd (reevaluate (ecs ?M)
        ((Scored_Memory ''m1'' ''content'' ''boastful'' 0 1.0)
           \<lparr>value_alignment_scores := fst (predict ''boastful'' ?r), reprocessing_count := 1\<rparr>)
        ?r)))) = ''Improved perspective: content''"
    using t3[THEN conjunct2, THEN conjunct1, rule_format, OF o] by simp
  show ?thesis
    using re t[THEN conjunct1] band o inf by (intro conjI)
qed

text \<open>
  Claim C2 as stated, with the pre-state scores computed by \<open>predict\<close> from the current
  inference when the stage is entered, fails. The memory added with the inference "boastful"
  while the generator returns 0.5 is stored with the score 0.85 for "Pride". Entered with a
  generator that returns 0, the stage gives \<open>inference_corrected\<close>, on the stored 0.85,
  although \<open>predict\<close> on "boastful" with that generator returns no score above 0.75 (0.65
  for "Pride", 0.3 for the others).
\<close>

theorem reevaluate_threshold_counterexample:
  "reachable (fst (add_memory RMMModel ''m1'' ''content'' ''boastful'' 0 (sconst (1 / 2))))
   \<and> memories (fst (add_memory RMMModel ''m1'' ''content'' ''boastful'' 0 (sconst (1 / 2)))) ''m1''
      = Some ((Scored_Memory ''m1'' ''content'' ''boastful'' 0 1.0)
                \<lparr>value_alignment_scores := fst (predict ''boastful'' (sconst (1 / 2)))\<rparr>)
   \<and> fst (predict ''boastful'' (sconst (1 / 2))) =
        [(''Pride'', 0.85), (''Envy'', 0.5), (''Gluttony'', 0.5), (''Lust'', 0.5),
         (''Anger'', 0.5), (''Greed'', 0.5), (''Sloth'', 0.5)]
   \<and> fst (reevaluate
        (ecs (fst (add_memory RMMModel ''m1'' ''content'' ''boastful'' 0 (sconst (1 / 2)))))
        ((Scored_Memory ''m1'' ''content'' ''boastful'' 0 1.0)
           \<lparr>value_alignment_scores := fst (predict ''boastful'' (sconst (1 / 2))),
            reprocessing_count := 1\<rparr>)
        (sconst 0)) = ''inference_corrected''
   \<and> fst (predict ''boastful'' (sconst 0)) =
        [(''Pride'', 0.65), (''Envy'', 0.3), (''Gluttony'', 0.3), (''Lust'', 0.3),
         (''Anger'', 0.3), (''Greed'', 0.3), (''Sloth'', 0.3)]
   \<and> \<not> (\<exists>(k, v) \<in> set (fst (predict ''boastful'' (sconst 0))). 0.75 < v)"
proof -
  have re: "reachable (fst (add_memory RMMModel ''m1'' ''content'' ''boastful'' 0 (sconst (1 / 2))))"
    by (intro reachable_add reachable_init unit_draws_half)
  have o: "fst (reevaluate
        (ecs (fst (add_memory RMMModel ''m1'' ''content'' ''boastful'' 0 (sconst (1 / 2)))))
        ((Scored_Memory ''m1'' ''content'' ''boastful'' 0 1.0)
           \<lparr>value_alignment_scores := fst (predict ''boastful'' (sconst (1 / 2))),
            reprocessing_count := 1\<rparr>)
        (sconst 0)) = ''inference_corrected''"
    by (simp add: reevaluate_outcome predict_boastful)
  have n: "\<not> (\<exists>(k, v) \<in> set (fst (predict ''boastful'' (sconst 0))). 0.75 < v)"
    by (simp add: predict_boastful_zero)
  show ?thesis
    using re add_memory_boastful o n predict_boastful_zero
    by (intro conjI) (simp_all add: predict_boastful)
qed

text \<open>
  Claim C3. In each of the three engines (\<open>run_rmm_cycle\<close> of \<open>Code.py\<close> and of the two
  copies in \<open>Code3.py\<close>), a cycle on an identifier that is in the collection leaves that
  memory there with its \<open>reprocessing_count\<close> one higher; a cycle on an identifier that
  is not there leaves it absent; and every other entry of the collection is the same object
  with the same state as before, so no other count changes.
\<close>

theorem cycle_reprocessing_count:
  fixes M :: "scored_memory rmm_model" and M3 :: rmm_model3 and M4 :: "memory rmm_model"
  shows
  "((\<forall>m. memories M i = Some m \<longrightarrow>
        (\<exists>m'. memories (fst (snd (run_rmm_cycle M i r))) i = Some m'
            \<and> reprocessing_count m' = reprocessing_count m + 1))
     \<and> (memories M i = None \<longrightarrow> memories (fst (snd (run_rmm_cycle M i r))) i = None)
     \<and> (\<forall>j. j \<noteq> i \<longrightarrow> memories (fst (snd (run_rmm_cycle M i r))) j = memories M j))
   \<and> ((\<forall>m. memories M3 i = Some m \<longrightarrow>
        (\<exists>m'. memories (fst (run_rmm_cycle3 M3 i r)) i = Some m'
            \<and> reprocessing_count m' = reprocessing_count m + 1))
     \<and> (memories M3 i = None \<longrightarrow> memories (fst (run_rmm_cycle3 M3 i r)) i = None)
     \<and> (\<forall>j. j \<noteq> i \<longrightarrow> memories (fst (run_rmm_cycle3 M3 i r)) j = memories M3 j))
   \<and> ((\<forall>m. memories M4 i = Some m \<longrightarrow>
        (\<exists>m'. memories (fst (run_rmm_cycle4 M4 i r)) i = Some m'
            \<and> reprocessing_count m' = reprocessing_count m + 1))
     \<and> (memories M4 i = None \<longrightarrow> memories (fst (run_rmm_cycle4 M4 i r)) i = None)
     \<and> (\<forall>j. j \<noteq> i \<longrightarrow> memories (fst (run_rmm_cycle4 M4 i r)) j = memories M4 j))"
proof (intro conjI allI impI)
  fix m assume "memories M i = Some m"
  then show "\<exists>m'. memories (fst (snd (run_rmm_cycle M i r))) i = Some m'
            \<and> reprocessing_count m' = reprocessing_count m + 1"
    by (rule run_rmm_cycle_count)
next
  assume "memories M i = None"
  then show "memories (fst (snd (run_rmm_cycle M i r))) i = None"
    by (simp add: run_rmm_cycle_absent)
next
  fix j assume "j \<noteq> i"
  then show "memories (fst (snd (run_rmm_cycle M i r))) j = memories M j"
    by (rule run_rmm_cycle_others)
next
  fix m assume "memories M3 i = Some m"
  then show "\<exists>m'. memories (fst (run_rmm_cycle3 M3 i r)) i = Some m'
            \<and> reprocessing_count m' = reprocessing_count m + 1"
    using run_rmm_cycle3_facts(3) by blast
next
  assume "memories M3 i = None"
  then show "memories (fst (run_rmm_cycle3 M3 i r)) i = None"
    by (simp add: run_rmm_cycle3_facts(1))
next
  fix j assume "j \<noteq> i"
  then show "memories (fst (run_rmm_cycle3 M3 i r)) j = memories M3 j"
    by (rule run_rmm_cycle3_facts(2))
next
  fix m assume "memories M4 i = Some m"
  then show "\<exists>m'. memories (fst (run_rmm_cycle4 M4 i r)) i = Some m'
            \<and> reprocessing_count m' = reprocessing_count m + 1"
    using run_rmm_cycle4_facts(3) by blast
next
  assume "memories M4 i = None"
  then show "memories (fst (run_rmm_cycle4 M4 i r)) i = None"
    by (simp add: run_rmm_cycle4_facts(1))
next
  fix j assume "j \<noteq> i"
  then show "memories (fst (run_rmm_cycle4 M4 i r)) j = memories M4 j"
    by (rule run_rmm_cycle4_facts(2))
qed

theorem cycle_reprocessing_count_witness:
  "(\<exists>m'. memories (fst (snd (run_rmm_cycle
        (fst (add_memory RMMModel ''m1'' ''content'' ''inference'' 0 (sconst (1 / 2))))
        ''m1'' (sconst (1 / 2))))) ''m1'' = Some m' \<and> reprocessing_count m' = 1)
   \<and> (\<exists>m'. memories (fst (run_rmm_cycle3
        (fst (add_memory3 RMMModel3 ''m1'' ''content'' ''inference'' 0))
        ''m1'' (sconst (1 / 2)))) ''m1'' = Some m' \<and> reprocessing_count m' = 1)
   \<and> (\<exists>m'. memories (fst (run_rmm_cycle4
        (fst (add_memory3 RMMModel4 ''m1'' ''content'' ''inference'' 0))
        ''m1'' (sconst (1 / 2)))) ''m1'' = Some m' \<and> reprocessing_count m' = 1)"
proof -
  let ?M = "fst (add_memory RMMModel ''m1'' ''content'' ''inference'' 0 (sconst (1 / 2)))"
  let ?M3 = "fst (add_memory3 RMMModel3 ''m1'' ''content'' ''inference'' 0)"
  let ?M4 = "fst (add_memory3 RMMModel4 ''m1'' ''content'' ''inference'' 0)"
  note t = cycle_reprocessing_count[of ?M "''m1''" "sconst (1 / 2)" ?M3 ?M4]
  have a: "\<exists>m'. memories (fst (snd (run_rmm_cycle ?M ''m1'' (sconst (1 / 2))))) ''m1'' = Some m'
             \<and> reprocessing_count m' = 1"
    using t[THEN conjunct1, THEN conjunct1, rule_format, OF add_memory_stored]
    by (simp add: Scored_Memory_def)
  have b: "\<exists>m'. memories (fst (run_rmm_cycle3 ?M3 ''m1'' (sconst (1 / 2)))) ''m1'' = Some m'
             \<and> reprocessing_count m' = 1"
    using t[THEN conjunct2, THEN conjunct1, THEN conjunct1, rule_format, OF add_memory3_stored]
    by (simp add: Memory_def)
  have c: "\<exists>m'. memories (fst (run_rmm_cycle4 ?M4 ''m1'' (sconst (1 / 2)))) ''m1'' = Some m'
             \<and> reprocessing_count m' = 1"
    using t[THEN conjunct2, THEN conjunct2, THEN conjunct1, rule_format, OF add_memory3_stored]
    by (simp add: Memory_def)
  show ?thesis using a b c by (intro conjI)
qed

text \<open>
  Claim C4. A cycle on an identifier that is not in the collection raises nothing, prints
  the not-found lines, and returns the collection, the modulation state and the generator
  exactly as they were; this holds in particular on the empty collection of a new
  \<open>RMMModel()\<close>.
\<close>

theorem cycle_not_found:
  fixes M :: "scored_memory rmm_model" and M3 :: rmm_model3 and M4 :: "memory rmm_model"
  shows
  "(memories M i = None \<longrightarrow> run_rmm_cycle M i r = (None, M, r, [MemoryNotFound i]))
   \<and> (memories M3 i = None \<longrightarrow> run_rmm_cycle3 M3 i r =
         (M3, r, [StartingCycle i, ErrorNotFoundForReactivation i, CycleAborted i]))
   \<and> (memories M4 i = None \<longrightarrow> run_rmm_cycle4 M4 i r =
         (M4, r, [StartingCycle i, ErrorNotFoundForReactivation i, CycleAborted i]))
   \<and> run_rmm_cycle RMMModel i r = (None, RMMModel, r, [MemoryNotFound i])
   \<and> run_rmm_cycle3 RMMModel3 i r =
         (RMMModel3, r, [StartingCycle i, ErrorNotFoundForReactivation i, CycleAborted i])
   \<and> run_rmm_cycle4 RMMModel4 i r =
         (RMMModel4, r, [StartingCycle i, ErrorNotFoundForReactivation i, CycleAborted i])"
proof (intro conjI impI)
  show "run_rmm_cycle RMMModel i r = (None, RMMModel, r, [MemoryNotFound i])"
    by (rule run_rmm_cycle_absent) (simp add: RMMModel_def)
  show "run_rmm_cycle3 RMMModel3 i r =
         (RMMModel3, r, [StartingCycle i, ErrorNotFoundForReactivation i, CycleAborted i])"
    by (rule run_rmm_cycle3_facts(1)) (simp add: RMMModel3_def)
  show "run_rmm_cycle4 RMMModel4 i r =
         (RMMModel4, r, [StartingCycle i, ErrorNotFoundForReactivation i, CycleAborted i])"
    by (rule run_rmm_cycle4_facts(1)) (simp add: RMMModel4_def)
qed (simp_all add: run_rmm_cycle_absent run_rmm_cycle3_facts(1) run_rmm_cycle4_facts(1))

theorem cycle_not_found_witness:
  "memories (fst (add_memory RMMModel ''m1'' ''content'' ''inference'' 0 (sconst (1 / 2))))
      ''missing_id'' = None
   \<and> run_rmm_cycle (fst (add_memory RMMModel ''m1'' ''content'' ''inference'' 0 (sconst (1 / 2))))
        ''missing_id'' (sconst (1 / 2))
      = (None, fst (add_memory RMMModel ''m1'' ''content'' ''inference'' 0 (sconst (1 / 2))),
         sconst (1 / 2), [MemoryNotFound ''missing_id''])
   \<and> run_rmm_cycle3 (fst (add_memory3 RMMModel3 ''m1'' ''content'' ''inference'' 0))
        ''missing_id'' (sconst (1 / 2))
      = (fst (add_memory3 RMMModel3 ''m1'' ''content'' ''inference'' 0), sconst (1 / 2),
         [StartingCycle ''missing_id'', ErrorNotFoundForReactivation ''missing_id'',
          CycleAborted ''missing_id''])
   \<and> run_rmm_cycle4 (fst (add_memory3 RMMModel4 ''m1'' ''content'' ''inference'' 0))
        ''missing_id'' (sconst (1 / 2))
      = (fst (add_memory3 RMMModel4 ''m1'' ''content'' ''inference'' 0), sconst (1 / 2),
         [StartingCycle ''missing_id'', ErrorNotFoundForReactivation ''missing_id'',
          CycleAborted ''missing_id''])"
proof -
  let ?M = "fst (add_memory RMMModel ''m1'' ''content'' ''inference'' 0 (sconst (1 / 2)))"
  let ?M3 = "fst (add_memory3 RMMModel3 ''m1'' ''content'' ''inference'' 0)"
  let ?M4 = "fst (add_memory3 RMMModel4 ''m1'' ''content'' ''inference'' 0)"
  have a: "memories ?M ''missing_id'' = None"
    by (simp add: add_memory_def Let_def split_beta RMMModel_def)
  have b: "memories ?M3 ''missing_id'' = None"
    by (simp add: add_memory3_def Let_def RMMModel3_def)
  have c: "memories ?M4 ''missing_id'' = None"
    by (simp add: add_memory3_def Let_def RMMModel4_def)
  note t = cycle_not_found[of ?M "''missing_id''" "sconst (1 / 2)" ?M3 ?M4]
  show ?thesis
    using a t[THEN conjunct1, rule_format, OF a]
      t[THEN conjunct2, THEN conjunct1, rule_format, OF b]
      t[THEN conjunct2, THEN conjunct2, THEN conjunct1, rule_format, OF c]
    by (intro conjI)
qed




text \<open>
  Claim C6. For every text and every stream of draws, each score that \<open>predict\<close> returns
  lies between 0 and 1 and is a whole number of hundredths. Moreover, when the draws lie
  in the unit interval, every principle of the table with one of its "sin" keywords in the
  lower-cased text and none of its "virtue" keywords there gets a score of at least 0.65.
\<close>

theorem predict_scores:
  "(\<forall>(k, v) \<in> set (fst (predict text r)). 0 \<le> v \<and> v \<le> 1 \<and> (\<exists>n::int. v = of_int n / 100)) \<and>
   (\<forall>principle sin_kws virtue_kws.
      (principle, sin_kws, virtue_kws) \<in> set value_spectrum_keywords \<and>
      (\<exists>w \<in> set sin_kws. is_substr w (lower text)) \<and>
      (\<forall>w \<in> set virtue_kws. \<not> is_substr w (lower text)) \<and>
      (\<forall>u \<in> sset r. 0 \<le> u \<and> u < 1)
      \<longrightarrow> (\<exists>v. map_of (fst (predict text r)) principle = Some v \<and> 0.65 \<le> v))"
proof (intro conjI allI impI)
  show "\<forall>(k, v) \<in> set (fst (predict text r)). 0 \<le> v \<and> v \<le> 1 \<and> (\<exists>n::int. v = of_int n / 100)"
    by (rule predict_range)
next
  fix principle sin_kws virtue_kws
  assume h: "(principle, sin_kws, virtue_kws) \<in> set value_spectrum_keywords \<and>
      (\<exists>w \<in> set sin_kws. is_substr w (lower text)) \<and>
      (\<forall>w \<in> set virtue_kws. \<not> is_substr w (lower text)) \<and>
      (\<forall>u \<in> sset r. 0 \<le> u \<and> u < 1)"
  have d: "distinct (map fst value_spectrum_keywords)"
    by (simp add: value_spectrum_keywords_def)
  have "\<forall>u \<in> sset r. 0 \<le> u" using h by blast
  then show "\<exists>v. map_of (fst (predict text r)) principle = Some v \<and> 0.65 \<le> v"
    unfolding predict_def
    using predict_loop_high[OF d, of principle sin_kws virtue_kws "lower text" r "[]"] h
    by (simp add: keyword_count_pos keyword_count_zero)
qed

theorem predict_scores_witness:
  "is_substr ''boastful'' (lower ''I am Boastful'') \<and>
   (\<exists>v. map_of (fst (predict ''I am Boastful'' (sconst (1 / 2)))) ''Pride'' = Some v \<and> 0.65 \<le> v)"
proof -
  have a: "(''Pride'', [''superior'', ''arrogant'', ''boastful''], [''humble'', ''modest''])
             \<in> set value_spectrum_keywords"
    by (simp add: value_spectrum_keywords_def)
  have b: "is_substr ''boastful'' (lower ''I am Boastful'')"
    by (simp add: lower_def lower_char_def)
  have c: "\<forall>w \<in> set [''humble'', ''modest'']. \<not> is_substr w (lower ''I am Boastful'')"
    by (simp add: lower_def lower_char_def)
  have d: "\<forall>u \<in> sset (sconst (1 / 2 :: real)). 0 \<le> u \<and> u < 1" by simp
  have "\<exists>v. map_of (fst (predict ''I am Boastful'' (sconst (1 / 2)))) ''Pride'' = Some v \<and> 0.65 \<le> v"
  proof (rule predict_scores[of "''I am Boastful''" "sconst (1 / 2)", THEN conjunct2, rule_format])
    show "(''Pride'', [''superior'', ''arrogant'', ''boastful''], [''humble'', ''modest''])
             \<in> set value_spectrum_keywords \<and>
          (\<exists>w \<in> set [''superior'', ''arrogant'', ''boastful'']. is_substr w (lower ''I am Boastful'')) \<and>
          (\<forall>w \<in> set [''humble'', ''modest'']. \<not> is_substr w (lower ''I am Boastful'')) \<and>
          (\<forall>u \<in> sset (sconst (1 / 2 :: real)). 0 \<le> u \<and> u < 1)"
      using a b c d by (intro conjI) simp_all
  qed
  then show ?thesis using b by (intro conjI)
qed

text \<open>
  Claim C7. After a completed cycle of \<open>Code.py\<close> on a memory, its scores are those that
  the re-evaluation stage left, \<open>agreement_shift\<close> is the mean of the scores it had when the
  cycle began minus the mean of the scores it has now, and \<open>mischievous_shift\<close> is the
  absolute difference of the two standard deviations (a number whenever both score
  dictionaries have at least two entries, as all that \<open>predict\<close> builds have). The same
  holds of a second cycle run right after the first, from the scores the first one left: the
  diagnostics are overwritten, not added to.
\<close>

theorem cycle_diagnostics:
  "(\<forall>m. memories M i = Some m \<and> fst (run_rmm_cycle M i r) = None \<longrightarrow>
      (\<exists>m'. memories (fst (snd (run_rmm_cycle M i r))) i = Some m'
         \<and> value_alignment_scores m' = value_alignment_scores (fst (snd (snd (reevaluate (ecs M)
                (m\<lparr>reprocessing_count := reprocessing_count m + 1\<rparr>) r))))
         \<and> agreement_shift m' = mean (map snd (value_alignment_scores m))
                - mean (map snd (value_alignment_scores m'))
         \<and> mischievous_shift m' = abs_diff (series_std (map snd (value_alignment_scores m')))
                (series_std (map snd (value_alignment_scores m)))
         \<and> (2 \<le> length (value_alignment_scores m) \<and> 2 \<le> length (value_alignment_scores m') \<longrightarrow>
              mischievous_shift m' = Some \<bar>sample_std (map snd (value_alignment_scores m'))
                - sample_std (map snd (value_alignment_scores m))\<bar>)))
   \<and> (\<forall>m1. memories (fst (snd (run_rmm_cycle M i r))) i = Some m1
          \<and> fst (run_rmm_cycle (fst (snd (run_rmm_cycle M i r))) i
                 (fst (snd (snd (run_rmm_cycle M i r))))) = None \<longrightarrow>
      (\<exists>m2. memories (fst (snd (run_rmm_cycle (fst (snd (run_rmm_cycle M i r))) i
                 (fst (snd (snd (run_rmm_cycle M i r))))))) i = Some m2
         \<and> value_alignment_scores m2 = value_alignment_scores (fst (snd (snd (reevaluate
                (ecs (fst (snd (run_rmm_cycle M i r))))
                (m1\<lparr>reprocessing_count := reprocessing_count m1 + 1\<rparr>)
                (fst (snd (snd (run_rmm_cycle M i r))))))))
         \<and> agreement_shift m2 = mean (map snd (value_alignment_scores m1))
                - mean (map snd (value_alignment_scores m2))
         \<and> mischievous_shift m2 = abs_diff (series_std (map snd (value_alignment_scores m2)))
                (series_std (map snd (value_alignment_scores m1)))))"
proof (intro conjI allI impI)
  fix m assume a: "memories M i = Some m \<and> fst (run_rmm_cycle M i r) = None"
  from run_rmm_cycle_diagnostics[OF conjunct1[OF a] conjunct2[OF a]]
  obtain m' where m': "memories (fst (snd (run_rmm_cycle M i r))) i = Some m'
      \<and> value_alignment_scores m' = value_alignment_scores (fst (snd (snd (reevaluate (ecs M)
             (m\<lparr>reprocessing_count := reprocessing_count m + 1\<rparr>) r))))
      \<and> agreement_shift m' = mean (map snd (value_alignment_scores m))
             - mean (map snd (value_alignment_scores m'))
      \<and> mischievous_shift m' = abs_diff (series_std (map snd (value_alignment_scores m')))
             (series_std (map snd (value_alignment_scores m)))" ..
  have ms: "mischievous_shift m' = abs_diff (series_std (map snd (value_alignment_scores m')))
             (series_std (map snd (value_alignment_scores m)))"
    using m' by (elim conjE)
  have "2 \<le> length (value_alignment_scores m) \<and> 2 \<le> length (value_alignment_scores m') \<longrightarrow>
      mischievous_shift m' = Some \<bar>sample_std (map snd (value_alignment_scores m'))
                - sample_std (map snd (value_alignment_scores m))\<bar>"
    by (simp add: ms abs_diff_def series_std_def)
  with m' have "memories (fst (snd (run_rmm_cycle M i r))) i = Some m'
         \<and> value_alignment_scores m' = value_alignment_scores (fst (snd (snd (reevaluate (ecs M)
                (m\<lparr>reprocessing_count := reprocessing_count m + 1\<rparr>) r))))
         \<and> agreement_shift m' = mean (map snd (value_alignment_scores m))
                - mean (map snd (value_alignment_scores m'))
         \<and> mischievous_shift m' = abs_diff (series_std (map snd (value_alignment_scores m')))
                (series_std (map snd (value_alignment_scores m)))
         \<and> (2 \<le> length (value_alignment_scores m) \<and> 2 \<le> length (value_alignment_scores m') \<longrightarrow>
              mischievous_shift m' = Some \<bar>sample_std (map snd (value_alignment_scores m'))
                - sample_std (map snd (value_alignment_scores m))\<bar>)"
    by (elim conjE) (intro conjI)
  then show "\<exists>m'. memories (fst (snd (run_rmm_cycle M i r))) i = Some m'
         \<and> value_alignment_scores m' = value_alignment_scores (fst (snd (snd (reevaluate (ecs M)
                (m\<lparr>reprocessing_count := reprocessing_count m + 1\<rparr>) r))))
         \<and> agreement_shift m' = mean (map snd (value_alignment_scores m))
                - mean (map snd (value_alignment_scores m'))
         \<and> mischievous_shift m' = abs_diff (series_std (map snd (value_alignment_scores m')))
                (series_std (map snd (value_alignment_scores m)))
         \<and> (2 \<le> length (value_alignment_scores m) \<and> 2 \<le> length (value_alignment_scores m') \<longrightarrow>
              mischievous_shift m' = Some \<bar>sample_std (map snd (value_alignment_scores m'))
                - sample_std (map snd (value_alignment_scores m))\<bar>)"
    by (rule exI)
next
  fix m1
  assume a: "memories (fst (snd (run_rmm_cycle M i r))) i = Some m1
          \<and> fst (run_rmm_cycle (fst (snd (run_rmm_cycle M i r))) i
                 (fst (snd (snd (run_rmm_cycle M i r))))) = None"
  show "\<exists>m2. memories (fst (snd (run_rmm_cycle (fst (snd (run_rmm_cycle M i r))) i
                 (fst (snd (snd (run_rmm_cycle M i r))))))) i = Some m2
         \<and> value_alignment_scores m2 = value_alignment_scores (fst (snd (snd (reevaluate
                (ecs (fst (snd (run_rmm_cycle M i r))))
                (m1\<lparr>reprocessing_count := reprocessing_count m1 + 1\<rparr>)
                (fst (snd (snd (run_rmm_cycle M i r))))))))
         \<and> agreement_shift m2 = mean (map snd (value_alignment_scores m1))
                - mean (map snd (value_alignment_scores m2))
         \<and> mischievous_shift m2 = abs_diff (series_std (map snd (value_alignment_scores m2)))
                (series_std (map snd (value_alignment_scores m1)))"
    using run_rmm_cycle_diagnostics[OF conjunct1[OF a] conjunct2[OF a]]
    by (elim exE conjE) (intro exI conjI)
qed

theorem cycle_diagnostics_witness:
  "(\<exists>m'. memories (fst (snd (run_rmm_cycle
          (fst (add_memory RMMModel ''m1'' ''content'' ''boastful'' 0 (sconst (1 / 2))))
          ''m1'' (sconst (1 / 2))))) ''m1'' = Some m'
       \<and> agreement_shift m' = 0.05
       \<and> mischievous_shift m' = Some \<bar>sample_std [0.5, 0.5, 0.5, 0.5, 0.5, 0.5, 0.5]
                                       - sample_std [0.85, 0.5, 0.5, 0.5, 0.5, 0.5, 0.5]\<bar>)
   \<and> (\<exists>m2. memories (fst (snd (run_rmm_cycle (fst (snd (run_rmm_cycle
          (fst (add_memory RMMModel ''m1'' ''content'' ''boastful'' 0 (sconst (1 / 2))))
          ''m1'' (sconst (1 / 2))))) ''m1'' (sconst (1 / 2))))) ''m1'' = Some m2
       \<and> agreement_shift m2 = 0)"
proof -
  let ?r = "sconst (1 / 2 :: real)"
  let ?M = "fst (add_memory RMMModel ''m1'' ''content'' ''boastful'' 0 ?r)"
  let ?m = "(Scored_Memory ''m1'' ''content'' ''boastful'' 0 1.0)
              \<lparr>value_alignment_scores := fst (predict ''boastful'' ?r)\<rparr>"
  let ?M1 = "fst (snd (run_rmm_cycle ?M ''m1'' ?r))"
  have a: "memories ?M ''m1'' = Some ?m" by (rule add_memory_boastful)
  have b: "fst (run_rmm_cycle ?M ''m1'' ?r) = None"
    by (rule run_rmm_cycle_completes[OF a]) (simp add: predict_nonempty)
  have pre: "value_alignment_scores ?m = fst (predict ''boastful'' ?r)" by simp
  have post: "value_alignment_scores (fst (snd (snd (reevaluate (ecs ?M)
                (?m\<lparr>reprocessing_count := reprocessing_count ?m + 1\<rparr>) ?r))))
      = fst (predict ''Improved perspective: content'' ?r)"
    by (simp add: reevaluate_scores reevaluate_outcome predict_boastful Scored_Memory_def)
  from cycle_diagnostics[of ?M "''m1''" ?r, THEN conjunct1, rule_format, OF conjI[OF a b]]
  obtain m1 where m1: "memories ?M1 ''m1'' = Some m1
         \<and> value_alignment_scores m1 = value_alignment_scores (fst (snd (snd (reevaluate (ecs ?M)
                (?m\<lparr>reprocessing_count := reprocessing_count ?m + 1\<rparr>) ?r))))
         \<and> agreement_shift m1 = mean (map snd (value_alignment_scores ?m))
                - mean (map snd (value_alignment_scores m1))
         \<and> mischievous_shift m1 = abs_diff (series_std (map snd (value_alignment_scores m1)))
                (series_std (map snd (value_alignment_scores ?m)))
         \<and> (2 \<le> length (value_alignment_scores ?m) \<and> 2 \<le> length (value_alignment_scores m1) \<longrightarrow>
              mischievous_shift m1 = Some \<bar>sample_std (map snd (value_alignment_scores m1))
                - sample_std (map snd (value_alignment_scores ?m))\<bar>)" ..
  have s1: "value_alignment_scores m1 = fst (predict ''Improved perspective: content'' ?r)"
    using m1 post by simp
  have sh1: "agreement_shift m1 = 0.05"
    using m1 by (simp add: s1 predict_boastful predict_improved_content mean_def)
  have ms1: "mischievous_shift m1 = Some \<bar>sample_std [0.5, 0.5, 0.5, 0.5, 0.5, 0.5, 0.5]
                                       - sample_std [0.85, 0.5, 0.5, 0.5, 0.5, 0.5, 0.5]\<bar>"
    using m1 by (simp add: s1 predict_boastful predict_improved_content abs_diff_def series_std_def)
  have first: "\<exists>m'. memories ?M1 ''m1'' = Some m' \<and> agreement_shift m' = 0.05
       \<and> mischievous_shift m' = Some \<bar>sample_std [0.5, 0.5, 0.5, 0.5, 0.5, 0.5, 0.5]
                                       - sample_std [0.85, 0.5, 0.5, 0.5, 0.5, 0.5, 0.5]\<bar>"
    using m1 sh1 ms1 by blast
  have a1: "memories ?M1 ''m1'' = Some m1" using m1 by simp
  have rng: "fst (snd (snd (run_rmm_cycle ?M ''m1'' ?r))) = ?r"
    by (rule run_rmm_cycle_rng_sconst)
  have b1: "fst (run_rmm_cycle ?M1 ''m1'' (fst (snd (snd (run_rmm_cycle ?M ''m1'' ?r))))) = None"
    by (rule run_rmm_cycle_completes[OF a1]) (simp add: s1 predict_nonempty)
  from cycle_diagnostics[of ?M "''m1''" ?r, THEN conjunct2, rule_format, OF conjI[OF a1 b1]]
  obtain m2 where m2: "memories (fst (snd (run_rmm_cycle ?M1 ''m1''
                 (fst (snd (snd (run_rmm_cycle ?M ''m1'' ?r))))))) ''m1'' = Some m2
         \<and> value_alignment_scores m2 = value_alignment_scores (fst (snd (snd (reevaluate
                (ecs ?M1) (m1\<lparr>reprocessing_count := reprocessing_count m1 + 1\<rparr>)
                (fst (snd (snd (run_rmm_cycle ?M ''m1'' ?r))))))))
         \<and> agreement_shift m2 = mean (map snd (value_alignment_scores m1))
                - mean (map snd (value_alignment_scores m2))
         \<and> mischievous_shift m2 = abs_diff (series_std (map snd (value_alignment_scores m2)))
                (series_std (map snd (value_alignment_scores m1)))" ..
  have s2: "value_alignment_scores m2 = value_alignment_scores m1"
    using m2 by (simp add: reevaluate_scores reevaluate_outcome s1 predict_improved_content)
  have "agreement_shift m2 = 0" using m2 by (simp add: s2)
  then have second: "\<exists>m2. memories (fst (snd (run_rmm_cycle ?M1 ''m1'' ?r))) ''m1'' = Some m2
       \<and> agreement_shift m2 = 0"
    using m2 rng by auto
  show ?thesis using first second by (intro conjI)
qed

text \<open>
  Claim C8, as amended. The retain stage sets \<open>is_adaptive\<close> and applying it twice is the
  same as applying it once; a memory is created with \<open>is_adaptive\<close> false, by the
  constructor and so by the add operation; after a cycle that completes on its identifier
  the memory is adaptive; and a memory that is adaptive stays adaptive through every later
  cycle, on its own identifier or on another, completed or not, and through every stage
  (reactivation, re-evaluation, modulation, rewriting, retention). The add operation leaves
  every other entry as it was, and stores under its identifier a new memory that is not
  adaptive, whatever was stored there before.
\<close>

theorem retain_adaptive:
  fixes M :: "scored_memory rmm_model" and M3 :: rmm_model3 and M4 :: "memory rmm_model"
  shows
  "(is_adaptive (retain m) \<and> retain (retain m) = retain m)
   \<and> (fst (retain_memory (Some m3)) = Some (m3\<lparr>is_adaptive := True\<rparr>)
        \<and> fst (retain_memory (fst (retain_memory (Some m3)))) = fst (retain_memory (Some m3)))
   \<and> (\<not> is_adaptive (Scored_Memory a b c v s) \<and> \<not> is_adaptive (Memory a b c v s))
   \<and> (\<exists>m'. memories (fst (add_memory M i b c v r)) i = Some m' \<and> \<not> is_adaptive m')
   \<and> (\<exists>m'. memories (fst (add_memory3 M3 i b c v)) i = Some m' \<and> \<not> is_adaptive m')
   \<and> (\<forall>m. memories M i = Some m \<and> fst (run_rmm_cycle M i r) = None \<longrightarrow>
         (\<exists>m'. memories (fst (snd (run_rmm_cycle M i r))) i = Some m' \<and> is_adaptive m'))
   \<and> (\<forall>m. memories M3 i = Some m \<longrightarrow>
         (\<exists>m'. memories (fst (run_rmm_cycle3 M3 i r)) i = Some m' \<and> is_adaptive m'))
   \<and> (\<forall>m. memories M4 i = Some m \<longrightarrow>
         (\<exists>m'. memories (fst (run_rmm_cycle4 M4 i r)) i = Some m' \<and> is_adaptive m'))
   \<and> (\<forall>j m. memories M j = Some m \<and> is_adaptive m \<longrightarrow>
         (\<exists>m'. memories (fst (snd (run_rmm_cycle M i r))) j = Some m' \<and> is_adaptive m'))
   \<and> (\<forall>j m. memories M3 j = Some m \<and> is_adaptive m \<longrightarrow>
         (\<exists>m'. memories (fst (run_rmm_cycle3 M3 i r)) j = Some m' \<and> is_adaptive m'))
   \<and> (\<forall>j m. memories M4 j = Some m \<and> is_adaptive m \<longrightarrow>
         (\<exists>m'. memories (fst (run_rmm_cycle4 M4 i r)) j = Some m' \<and> is_adaptive m'))
   \<and> (\<forall>j. j \<noteq> i \<longrightarrow> memories (fst (add_memory M i b c v r)) j = memories M j)
   \<and> (\<forall>j. j \<noteq> i \<longrightarrow> memories (fst (add_memory3 M3 i b c v)) j = memories M3 j)
   \<and> (is_adaptive (fst (apply_modulation e m r)) = is_adaptive m
        \<and> is_adaptive (fst (apply_modulation e m3 r)) = is_adaptive m3
        \<and> is_adaptive (fst (snd (snd (reevaluate e m r)))) = is_adaptive m
        \<and> is_adaptive (rewrite m outcome) = is_adaptive m)
   \<and> (\<exists>m'. fst (snd (snd (reevaluate_memory ps e (Some m3) r))) = Some m'
          \<and> is_adaptive m' = is_adaptive m3)
   \<and> (\<exists>m'. fst (snd (snd (reevaluate_memory4 e (Some m3) r))) = Some m'
          \<and> is_adaptive m' = is_adaptive m3)
   \<and> (\<exists>m'. fst (rewrite_memory (Some m3) outcome) = Some m'
          \<and> is_adaptive m' = is_adaptive m3)
   \<and> (\<forall>m0. memories M3 i = Some m0 \<longrightarrow>
         (\<exists>m'. fst (reactivate_memory M3 i) = Some m'
            \<and> memories (fst (snd (reactivate_memory M3 i))) i = Some m'
            \<and> is_adaptive m' = is_adaptive m0))"
proof (intro conjI allI impI)
  show "is_adaptive (fst (apply_modulation e m r)) = is_adaptive m"
    by (rule apply_modulation_frame)
  show "is_adaptive (fst (apply_modulation e m3 r)) = is_adaptive m3"
    by (rule apply_modulation_frame)
  show "is_adaptive (fst (snd (snd (reevaluate e m r)))) = is_adaptive m"
    by (rule reevaluate_frame)
  show "is_adaptive (rewrite m outcome) = is_adaptive m"
    by (rule rewrite_frame)
  show "\<exists>m'. fst (snd (snd (reevaluate_memory ps e (Some m3) r))) = Some m'
          \<and> is_adaptive m' = is_adaptive m3"
    using reevaluate_memory_Some[of ps e m3 r] by blast
  show "\<exists>m'. fst (snd (snd (reevaluate_memory4 e (Some m3) r))) = Some m'
          \<and> is_adaptive m' = is_adaptive m3"
    using reevaluate_memory4_Some[of e m3 r] by blast
  show "\<exists>m'. fst (rewrite_memory (Some m3) outcome) = Some m'
          \<and> is_adaptive m' = is_adaptive m3"
    using rewrite_memory_Some[of m3 outcome] by blast
next
  fix m0 assume "memories M3 i = Some m0"
  then show "\<exists>m'. fst (reactivate_memory M3 i) = Some m'
            \<and> memories (fst (snd (reactivate_memory M3 i))) i = Some m'
            \<and> is_adaptive m' = is_adaptive m0"
    by (simp add: reactivate_memory_def Let_def)
next
  show "is_adaptive (retain m)" by (simp add: retain_def)
  show "retain (retain m) = retain m" by (simp add: retain_def)
  show "fst (retain_memory (Some m3)) = Some (m3\<lparr>is_adaptive := True\<rparr>)"
    by (simp add: retain_memory_def Let_def)
  show "fst (retain_memory (fst (retain_memory (Some m3)))) = fst (retain_memory (Some m3))"
    by (simp add: retain_memory_def Let_def)
  show "\<not> is_adaptive (Scored_Memory a b c v s)" by (simp add: Scored_Memory_def)
  show "\<not> is_adaptive (Memory a b c v s)" by (simp add: Memory_def)
  show "\<exists>m'. memories (fst (add_memory M i b c v r)) i = Some m' \<and> \<not> is_adaptive m'"
    by (simp add: add_memory_stored Scored_Memory_def)
  show "\<exists>m'. memories (fst (add_memory3 M3 i b c v)) i = Some m' \<and> \<not> is_adaptive m'"
    by (simp add: add_memory3_stored Memory_def)
next
  fix m assume "memories M i = Some m \<and> fst (run_rmm_cycle M i r) = None"
  then show "\<exists>m'. memories (fst (snd (run_rmm_cycle M i r))) i = Some m' \<and> is_adaptive m'"
    using run_rmm_cycle_completed by blast
next
  fix m assume "memories M3 i = Some m"
  then show "\<exists>m'. memories (fst (run_rmm_cycle3 M3 i r)) i = Some m' \<and> is_adaptive m'"
    using run_rmm_cycle3_facts(3) by blast
next
  fix m assume "memories M4 i = Some m"
  then show "\<exists>m'. memories (fst (run_rmm_cycle4 M4 i r)) i = Some m' \<and> is_adaptive m'"
    using run_rmm_cycle4_facts(3) by blast
next
  fix j m assume "memories M j = Some m \<and> is_adaptive m"
  then show "\<exists>m'. memories (fst (snd (run_rmm_cycle M i r))) j = Some m' \<and> is_adaptive m'"
    using run_rmm_cycle_stays_adaptive by blast
next
  fix j m assume "memories M3 j = Some m \<and> is_adaptive m"
  then show "\<exists>m'. memories (fst (run_rmm_cycle3 M3 i r)) j = Some m' \<and> is_adaptive m'"
    unfolding run_rmm_cycle3_with
    using run_cycle_with_stays_adaptive[
        where reeval = "reevaluate_memory (value_system_principles M3)", OF _ _ reevaluate_memory_Some]
    by blast
next
  fix j m assume "memories M4 j = Some m \<and> is_adaptive m"
  then show "\<exists>m'. memories (fst (run_rmm_cycle4 M4 i r)) j = Some m' \<and> is_adaptive m'"
    unfolding run_rmm_cycle4_with
    using run_cycle_with_stays_adaptive[
        where reeval = reevaluate_memory4, OF _ _ reevaluate_memory4_Some]
    by blast
next
  fix j assume "j \<noteq> i"
  then show "memories (fst (add_memory M i b c v r)) j = memories M j"
    by (simp add: add_memory_def Let_def split_beta)
next
  fix j assume "j \<noteq> i"
  then show "memories (fst (add_memory3 M3 i b c v)) j = memories M3 j"
    by (simp add: add_memory3_def Let_def)
qed

theorem retain_adaptive_witness:
  "(\<exists>m'. memories (fst (snd (run_rmm_cycle
        (fst (add_memory RMMModel ''m1'' ''content'' ''boastful'' 0 (sconst (1 / 2))))
        ''m1'' (sconst (1 / 2))))) ''m1'' = Some m' \<and> is_adaptive m')
   \<and> (\<exists>m'. memories (fst (snd (run_rmm_cycle (fst (snd (run_rmm_cycle
        (fst (add_memory RMMModel ''m1'' ''content'' ''boastful'' 0 (sconst (1 / 2))))
        ''m1'' (sconst (1 / 2))))) ''other'' (sconst (1 / 2))))) ''m1'' = Some m' \<and> is_adaptive m')
   \<and> (\<exists>m'. memories (fst (run_rmm_cycle3
        (fst (add_memory3 RMMModel3 ''m1'' ''content'' ''inference'' 0))
        ''m1'' (sconst (1 / 2)))) ''m1'' = Some m' \<and> is_adaptive m')
   \<and> (\<exists>m'. memories (fst (run_rmm_cycle3 (fst (run_rmm_cycle3
        (fst (add_memory3 RMMModel3 ''m1'' ''content'' ''inference'' 0))
        ''m1'' (sconst (1 / 2)))) ''m1'' (sconst (1 / 2)))) ''m1'' = Some m' \<and> is_adaptive m')
   \<and> (\<exists>m'. memories (fst (run_rmm_cycle4
        (fst (add_memory3 RMMModel4 ''m1'' ''content'' ''inference'' 0))
        ''m1'' (sconst (1 / 2)))) ''m1'' = Some m' \<and> is_adaptive m')
   \<and> (\<exists>m'. memories (fst (run_rmm_cycle4 (fst (run_rmm_cycle4
        (fst (add_memory3 RMMModel4 ''m1'' ''content'' ''inference'' 0))
        ''m1'' (sconst (1 / 2)))) ''m1'' (sconst (1 / 2)))) ''m1'' = Some m' \<and> is_adaptive m')"
proof -
  let ?r = "sconst (1 / 2 :: real)"
  let ?M = "fst (add_memory RMMModel ''m1'' ''content'' ''boastful'' 0 ?r)"
  let ?m = "(Scored_Memory ''m1'' ''content'' ''boastful'' 0 1.0)
              \<lparr>value_alignment_scores := fst (predict ''boastful'' ?r)\<rparr>"
  let ?M3 = "fst (add_memory3 RMMModel3 ''m1'' ''content'' ''inference'' 0)"
  let ?M4 = "fst (add_memory3 RMMModel4 ''m1'' ''content'' ''inference'' 0)"
  have a: "memories ?M ''m1'' = Some ?m" by (rule add_memory_boastful)
  have b: "fst (run_rmm_cycle ?M ''m1'' ?r) = None"
    by (rule run_rmm_cycle_completes[OF a]) (simp add: predict_nonempty)
  note t = retain_adaptive[where M = ?M and ?M3.0 = ?M3 and ?M4.0 = ?M4 and i = "''m1''" and r = ?r]
  have c1: "\<exists>m'. memories (fst (snd (run_rmm_cycle ?M ''m1'' ?r))) ''m1'' = Some m' \<and> is_adaptive m'"
    using t[THEN conjunct2, THEN conjunct2, THEN conjunct2, THEN conjunct2, THEN conjunct2,
            THEN conjunct1, rule_format, OF conjI[OF a b]] .
  then obtain m1 where m1: "memories (fst (snd (run_rmm_cycle ?M ''m1'' ?r))) ''m1'' = Some m1"
    "is_adaptive m1" by blast
  have c2: "\<exists>m'. memories (fst (snd (run_rmm_cycle (fst (snd (run_rmm_cycle ?M ''m1'' ?r)))
               ''other'' ?r))) ''m1'' = Some m' \<and> is_adaptive m'"
    using retain_adaptive[where M = "fst (snd (run_rmm_cycle ?M ''m1'' ?r))" and i = "''other''"
              and r = ?r,
            THEN conjunct2, THEN conjunct2, THEN conjunct2, THEN conjunct2, THEN conjunct2,
            THEN conjunct2, THEN conjunct2, THEN conjunct2, THEN conjunct1, rule_format,
            OF conjI[OF m1]] .
  have a3: "memories ?M3 ''m1'' = Some (Memory ''m1'' ''content'' ''inference'' 0 1.0)"
    by (rule add_memory3_stored)
  have c3: "\<exists>m'. memories (fst (run_rmm_cycle3 ?M3 ''m1'' ?r)) ''m1'' = Some m' \<and> is_adaptive m'"
    using t[THEN conjunct2, THEN conjunct2, THEN conjunct2, THEN conjunct2, THEN conjunct2,
            THEN conjunct2, THEN conjunct1, rule_format, OF a3] .
  then obtain m3 where m3: "memories (fst (run_rmm_cycle3 ?M3 ''m1'' ?r)) ''m1'' = Some m3"
    "is_adaptive m3" by blast
  have c4: "\<exists>m'. memories (fst (run_rmm_cycle3 (fst (run_rmm_cycle3 ?M3 ''m1'' ?r)) ''m1'' ?r))
               ''m1'' = Some m' \<and> is_adaptive m'"
    using retain_adaptive[where ?M3.0 = "fst (run_rmm_cycle3 ?M3 ''m1'' ?r)" and i = "''m1''"
              and r = ?r,
            THEN conjunct2, THEN conjunct2, THEN conjunct2, THEN conjunct2, THEN conjunct2,
            THEN conjunct2, THEN conjunct2, THEN conjunct2, THEN conjunct2, THEN conjunct1,
            rule_format, OF conjI[OF m3]] .
  have a4: "memories ?M4 ''m1'' = Some (Memory ''m1'' ''content'' ''inference'' 0 1.0)"
    by (rule add_memory3_stored)
  have c5: "\<exists>m'. memories (fst (run_rmm_cycle4 ?M4 ''m1'' ?r)) ''m1'' = Some m' \<and> is_adaptive m'"
    using t[THEN conjunct2, THEN conjunct2, THEN conjunct2, THEN conjunct2, THEN conjunct2,
            THEN conjunct2, THEN conjunct2, THEN conjunct1, rule_format, OF a4] .
  then obtain m4 where m4: "memories (fst (run_rmm_cycle4 ?M4 ''m1'' ?r)) ''m1'' = Some m4"
    "is_adaptive m4" by blast
  have c6: "\<exists>m'. memories (fst (run_rmm_cycle4 (fst (run_rmm_cycle4 ?M4 ''m1'' ?r)) ''m1'' ?r))
               ''m1'' = Some m' \<and> is_adaptive m'"
    using retain_adaptive[where ?M4.0 = "fst (run_rmm_cycle4 ?M4 ''m1'' ?r)" and i = "''m1''"
              and r = ?r,
            THEN conjunct2, THEN conjunct2, THEN conjunct2, THEN conjunct2, THEN conjunct2,
            THEN conjunct2, THEN conjunct2, THEN conjunct2, THEN conjunct2, THEN conjunct2,
            THEN conjunct1, rule_format, OF conjI[OF m4]] .
  show ?thesis using c1 c2 c3 c4 c5 c6 by (intro conjI)
qed

text \<open>
  Claim C8 as stated, with "never reverts to false under any operation", fails for the add
  operation: the entry under an identifier is adaptive after a completed cycle and is not
  adaptive after \<open>add_memory\<close> is called again with that identifier, in \<open>Code.py\<close>
  and in \<open>Code3.py\<close>.
\<close>

theorem retain_adaptive_counterexample:
  "(\<exists>m. memories (fst (snd (run_rmm_cycle
          (fst (add_memory RMMModel ''m1'' ''content'' ''boastful'' 0 (sconst (1 / 2))))
          ''m1'' (sconst (1 / 2))))) ''m1'' = Some m \<and> is_adaptive m)
   \<and> (\<exists>m'. memories (fst (add_memory (fst (snd (run_rmm_cycle
          (fst (add_memory RMMModel ''m1'' ''content'' ''boastful'' 0 (sconst (1 / 2))))
          ''m1'' (sconst (1 / 2))))) ''m1'' ''content'' ''boastful'' 0 (sconst (1 / 2)))) ''m1''
        = Some m' \<and> \<not> is_adaptive m')
   \<and> (\<exists>m. memories (fst (run_rmm_cycle3
          (fst (add_memory3 RMMModel3 ''m1'' ''content'' ''inference'' 0))
          ''m1'' (sconst (1 / 2)))) ''m1'' = Some m \<and> is_adaptive m)
   \<and> (\<exists>m'. memories (fst (add_memory3 (fst (run_rmm_cycle3
          (fst (add_memory3 RMMModel3 ''m1'' ''content'' ''inference'' 0))
          ''m1'' (sconst (1 / 2)))) ''m1'' ''content'' ''inference'' 0)) ''m1''
        = Some m' \<and> \<not> is_adaptive m')"
proof -
  let ?r = "sconst (1 / 2 :: real)"
  let ?M = "fst (add_memory RMMModel ''m1'' ''content'' ''boastful'' 0 ?r)"
  have a: "memories ?M ''m1'' = Some ((Scored_Memory ''m1'' ''content'' ''boastful'' 0 1.0)
              \<lparr>value_alignment_scores := fst (predict ''boastful'' ?r)\<rparr>)"
    by (rule add_memory_boastful)
  have b: "fst (run_rmm_cycle ?M ''m1'' ?r) = None"
    by (rule run_rmm_cycle_completes[OF a]) (simp add: predict_nonempty)
  have c1: "\<exists>m. memories (fst (snd (run_rmm_cycle ?M ''m1'' ?r))) ''m1'' = Some m \<and> is_adaptive m"
    by (rule run_rmm_cycle_completed[OF a b])
  have c2: "\<exists>m'. memories (fst (add_memory (fst (snd (run_rmm_cycle ?M ''m1'' ?r)))
          ''m1'' ''content'' ''boastful'' 0 ?r)) ''m1'' = Some m' \<and> \<not> is_adaptive m'"
    by (simp add: add_memory_stored Scored_Memory_def)
  have c3: "\<exists>m. memories (fst (run_rmm_cycle3
          (fst (add_memory3 RMMModel3 ''m1'' ''content'' ''inference'' 0)) ''m1'' ?r)) ''m1''
        = Some m \<and> is_adaptive m"
    using run_rmm_cycle3_facts(3)[OF add_memory3_stored] by blast
  have c4: "\<exists>m'. memories (fst (add_memory3 (fst (run_rmm_cycle3
          (fst (add_memory3 RMMModel3 ''m1'' ''content'' ''inference'' 0)) ''m1'' ?r))
          ''m1'' ''content'' ''inference'' 0)) ''m1'' = Some m' \<and> \<not> is_adaptive m'"
    by (simp add: add_memory3_stored Memory_def)
  show ?thesis using c1 c2 c3 c4 by (intro conjI)
qed

text \<open>
  Claim C9, as amended. The add operation never rejects: it always stores a new memory under
  the identifier, replacing what was there. \<open>add_memory\<close> of \<open>Code3.py\<close> (both copies)
  prints the warning line before the "Added new memory" line exactly when the identifier was
  present; \<open>add_memory\<close> of \<open>Code.py\<close> prints nothing in either case.
\<close>

theorem add_existing_identifier:
  fixes M :: "scored_memory rmm_model" and M3 :: "(memory, 'a) rmm_model_scheme"
  shows
  "(memories M3 i \<noteq> None \<longrightarrow>
      add_memory3 M3 i c inference v =
        (M3\<lparr>memories := (memories M3)(i \<mapsto> Memory i c inference v 1)\<rparr>,
         [WarningOverwriting i, AddedNewMemory (Memory i c inference v 1)]))
   \<and> (memories M3 i = None \<longrightarrow>
      add_memory3 M3 i c inference v =
        (M3\<lparr>memories := (memories M3)(i \<mapsto> Memory i c inference v 1)\<rparr>,
         [AddedNewMemory (Memory i c inference v 1)]))
   \<and> add_memory M i c inference v r =
        (M\<lparr>memories := (memories M)(i \<mapsto>
             (Scored_Memory i c inference v 1)\<lparr>value_alignment_scores := fst (predict inference r)\<rparr>)\<rparr>,
         snd (predict inference r), [])"
  by (simp add: add_memory3_def add_memory_def Let_def split_beta)

theorem add_existing_identifier_witness:
  "memories (fst (add_memory3 RMMModel3 ''m1'' ''old content'' ''old inference'' 0)) ''m1'' \<noteq> None
   \<and> snd (add_memory3 (fst (add_memory3 RMMModel3 ''m1'' ''old content'' ''old inference'' 0))
          ''m1'' ''new content'' ''new inference'' 0)
      = [WarningOverwriting ''m1'',
         AddedNewMemory (Memory ''m1'' ''new content'' ''new inference'' 0 1)]
   \<and> memories (fst (add_memory3 (fst (add_memory3 RMMModel3 ''m1'' ''old content'' ''old inference'' 0))
          ''m1'' ''new content'' ''new inference'' 0)) ''m1''
      = Some (Memory ''m1'' ''new content'' ''new inference'' 0 1)
   \<and> memories RMMModel4 ''m1'' = None
   \<and> snd (add_memory3 RMMModel4 ''m1'' ''old content'' ''old inference'' 0)
      = [AddedNewMemory (Memory ''m1'' ''old content'' ''old inference'' 0 1)]"
proof -
  let ?M3 = "fst (add_memory3 RMMModel3 ''m1'' ''old content'' ''old inference'' 0)"
  have a: "memories ?M3 ''m1'' \<noteq> None" by (simp add: add_memory3_stored)
  have b: "memories RMMModel4 ''m1'' = None" by (simp add: RMMModel4_def)
  have c: "add_memory3 ?M3 ''m1'' ''new content'' ''new inference'' 0 =
        (?M3\<lparr>memories := (memories ?M3)(''m1'' \<mapsto> Memory ''m1'' ''new content'' ''new inference'' 0 1)\<rparr>,
         [WarningOverwriting ''m1'',
          AddedNewMemory (Memory ''m1'' ''new content'' ''new inference'' 0 1)])"
    using add_existing_identifier[where ?M3.0 = ?M3 and i = "''m1''", THEN conjunct1, rule_format, OF a] .
  have d: "add_memory3 RMMModel4 ''m1'' ''old content'' ''old inference'' 0 =
        (RMMModel4\<lparr>memories := (memories RMMModel4)(''m1'' \<mapsto>
             Memory ''m1'' ''old content'' ''old inference'' 0 1)\<rparr>,
         [AddedNewMemory (Memory ''m1'' ''old content'' ''old inference'' 0 1)])"
    using add_existing_identifier[where ?M3.0 = RMMModel4 and i = "''m1''",
        THEN conjunct2, THEN conjunct1, rule_format, OF b] .
  show ?thesis
    using a b by (simp add: c d)
qed

text \<open>
  Claim C9 as stated fails in \<open>Code.py\<close>: adding under an identifier that is present
  replaces the stored memory and prints no line, so it neither warns nor rejects.
\<close>

theorem add_existing_counterexample:
  "memories (fst (add_memory RMMModel ''m1'' ''old content'' ''old inference'' 0 (sconst (1 / 2))))
      ''m1'' \<noteq> None
   \<and> snd (snd (add_memory
        (fst (add_memory RMMModel ''m1'' ''old content'' ''old inference'' 0 (sconst (1 / 2))))
        ''m1'' ''new content'' ''new inference'' 0 (sconst (1 / 2)))) = []
   \<and> (\<exists>m. memories (fst (add_memory
        (fst (add_memory RMMModel ''m1'' ''old content'' ''old inference'' 0 (sconst (1 / 2))))
        ''m1'' ''new content'' ''new inference'' 0 (sconst (1 / 2)))) ''m1'' = Some m
        \<and> content m = ''new content'' \<and> current_inference m = ''new inference'')"
  by (simp add: add_memory_def Let_def split_beta Scored_Memory_def)

text \<open>
  Claim C10. In \<open>Code.py\<close>, \<open>reevaluate\<close> returns \<open>inference_corrected\<close> or \<open>no_change\<close>
  for every memory, modulation state and stream of draws, never \<open>dissonance_high\<close>. So in
  a completed \<open>run_rmm_cycle\<close> the rewrite stage either scales the strength by 1.1 and
  raises the valence by 0.1 (capped at 1), or changes neither: the branch that scales by
  0.8 is not taken.
\<close>

theorem reevaluate_never_dissonance:
  "(fst (reevaluate e m r) = ''inference_corrected'' \<or> fst (reevaluate e m r) = ''no_change'')
   \<and> fst (reevaluate e m r) \<noteq> ''dissonance_high''
   \<and> (\<forall>m0. memories M i = Some m0 \<and> fst (run_rmm_cycle M i r) = None \<longrightarrow>
         (let res = reevaluate (ecs M) (m0\<lparr>reprocessing_count := reprocessing_count m0 + 1\<rparr>) r;
              outcome = fst res;
              m2 = fst (snd (snd res))
          in \<exists>m'. memories (fst (snd (run_rmm_cycle M i r))) i = Some m'
               \<and> strength m' =
                   (if outcome = ''inference_corrected'' then strength m2 * 1.1 else strength m2)
               \<and> current_valence m' =
                   (if outcome = ''inference_corrected'' then min 1 (current_valence m2 + 0.1)
                    else current_valence m2)))"
proof (intro conjI allI impI)
  show "fst (reevaluate e m r) = ''inference_corrected'' \<or> fst (reevaluate e m r) = ''no_change''"
    by (simp add: reevaluate_outcome)
  show "fst (reevaluate e m r) \<noteq> ''dissonance_high''"
    by (simp add: reevaluate_outcome)
next
  fix m0 assume a: "memories M i = Some m0 \<and> fst (run_rmm_cycle M i r) = None"
  let ?res = "reevaluate (ecs M) (m0\<lparr>reprocessing_count := reprocessing_count m0 + 1\<rparr>) r"
  have o: "fst ?res = ''inference_corrected'' \<or> fst ?res = ''no_change''"
    by (simp add: reevaluate_outcome)
  show "let res = ?res; outcome = fst res; m2 = fst (snd (snd res))
          in \<exists>m'. memories (fst (snd (run_rmm_cycle M i r))) i = Some m'
               \<and> strength m' =
                   (if outcome = ''inference_corrected'' then strength m2 * 1.1 else strength m2)
               \<and> current_valence m' =
                   (if outcome = ''inference_corrected'' then min 1 (current_valence m2 + 0.1)
                    else current_valence m2)"
    unfolding Let_def
    using o run_rmm_cycle_result[of M i m0 r] a
    by (auto simp: retain_def rewrite_def Let_def)
qed

theorem reevaluate_never_dissonance_witness:
  "fst (run_rmm_cycle (fst (add_memory RMMModel ''m1'' ''content'' ''boastful'' 0 (sconst (1 / 2))))
        ''m1'' (sconst (1 / 2))) = None
   \<and> (\<exists>m'. memories (fst (snd (run_rmm_cycle
           (fst (add_memory RMMModel ''m1'' ''content'' ''boastful'' 0 (sconst (1 / 2))))
           ''m1'' (sconst (1 / 2))))) ''m1'' = Some m'
         \<and> strength m' = 1.1 \<and> current_valence m' = 0.1)"
proof -
  let ?r = "sconst (1 / 2 :: real)"
  let ?M = "fst (add_memory RMMModel ''m1'' ''content'' ''boastful'' 0 ?r)"
  let ?m = "(Scored_Memory ''m1'' ''content'' ''boastful'' 0 1.0)
              \<lparr>value_alignment_scores := fst (predict ''boastful'' ?r)\<rparr>"
  have a: "memories ?M ''m1'' = Some ?m" by (rule add_memory_boastful)
  have b: "fst (run_rmm_cycle ?M ''m1'' ?r) = None"
    by (rule run_rmm_cycle_completes[OF a]) (simp add: predict_nonempty)
  let ?res = "reevaluate (ecs ?M) (?m\<lparr>reprocessing_count := reprocessing_count ?m + 1\<rparr>) ?r"
  have c: "fst ?res = ''inference_corrected''"
    by (simp add: reevaluate_outcome predict_boastful)
  have d: "strength (fst (snd (snd ?res))) = 1" "current_valence (fst (snd (snd ?res))) = 0"
    by (simp_all add: reevaluate_def Let_def split_beta predict_boastful predict_sconst
          apply_modulation_def uniform_def get_feedback_signal_def Scored_Memory_def
          add_memory_ecs RMMModel_def EndocannabinoidSystem_def)
  have "\<exists>m'. memories (fst (snd (run_rmm_cycle ?M ''m1'' ?r))) ''m1'' = Some m'
         \<and> strength m' = (if fst ?res = ''inference_corrected''
                           then strength (fst (snd (snd ?res))) * 1.1
                           else strength (fst (snd (snd ?res))))
         \<and> current_valence m' = (if fst ?res = ''inference_corrected''
                           then min 1 (current_valence (fst (snd (snd ?res))) + 0.1)
                           else current_valence (fst (snd (snd ?res))))"
    using reevaluate_never_dissonance[of _ _ ?r ?M "''m1''",
        THEN conjunct2, THEN conjunct2, rule_format, OF conjI[OF a b]]
    unfolding Let_def .
  then have t: "\<exists>m'. memories (fst (snd (run_rmm_cycle ?M ''m1'' ?r))) ''m1'' = Some m'
         \<and> strength m' = 1.1 \<and> current_valence m' = 0.1"
    unfolding c d by simp
  show ?thesis using b t by (intro conjI)
qed

end
